theory Spec2Isabelle
  imports
    Complex_Main
    "HOL-Library.Multiset"
    "HOL-Library.Char_ord"
    "HOL-Library.List_Lexorder"
    "HOL-Library.Option_ord"
    "HOL-Library.Product_Lexorder"
begin

section \<open>Pharmacy claims analytics: record model\<close>

text \<open>
  The program (loader.py, processor.py, main.py) reads pharmacy, claim and revert
  records into polars data frames and derives three reports from them. A data frame is
  modelled as the list of its rows, a row as a record. The columns are those that
  main.py's schemas and loader.py's \<^verbatim>\<open>select(["npi", "chain"])\<close> fix.

  A \<^verbatim>\<open>Float64\<close> value is modelled as a rational number and its arithmetic as exact:
  every finite float is a rational, but IEEE rounding of sums and quotients, NaN and
  the infinities are outside this model. An exact sum does not depend on the order of
  its summands and a \<^verbatim>\<open>Float64\<close> sum does, so no statement below equates the sums of
  two frames that hold the same rows in different orders. A \<^verbatim>\<open>Utf8\<close> value is a \<^typ>\<open>string\<close>, compared
  bytewise and lexicographically, as polars sorts it. Nulls are modelled only where the
  program itself creates them (the chain column of the left join, the mode column of the
  quantity report, the average price of a chain with no quantity).
\<close>

record PharmacyRecord =
  p_npi :: string
  p_chain :: string

record ClaimRecord =
  c_id :: string
  c_npi :: string
  c_ndc :: string
  c_price :: rat
  c_quantity :: rat
  c_timestamp :: string

record RevertRecord =
  r_id :: string
  r_claim_id :: string
  r_timestamp :: string

text \<open>The claims frame after \<^verbatim>\<open>with_columns(... .alias("is_reverted"))\<close>.\<close>

record EnrichedClaim = ClaimRecord +
  is_reverted :: bool

section \<open>What polars leaves open\<close>

text \<open>
  \<^verbatim>\<open>group_by\<close> without \<^verbatim>\<open>maintain_order=True\<close> returns its groups in an order that
  polars does not specify, the inner \<^verbatim>\<open>join\<close> returns its rows in an order that polars
  does not specify, and the rounding mode of \<^verbatim>\<open>Expr.round(2)\<close> depends on the polars
  version. All three are parameters of the model: an engine gives the rounding function,
  the order in which the rows of the inner join come out, as a function from the rows in
  the order of the claims to the rows as returned, and, for each unordered \<^verbatim>\<open>group_by\<close>
  of processor.py, the order in which the group keys come out, as a function from the
  keys in order of first appearance to the keys as returned.
\<close>

record engine =
  round2 :: "rat \<Rightarrow> rat"
  join_order :: "ClaimRecord list \<Rightarrow> ClaimRecord list"
  gb_metrics :: "(string \<times> string) list \<Rightarrow> (string \<times> string) list"
  gb_chain :: "(string \<times> string option) list \<Rightarrow> (string \<times> string option) list"
  gb_qty_count :: "(string \<times> rat) list \<Rightarrow> (string \<times> rat) list"
  gb_qty_groups :: "string list \<Rightarrow> string list"
  gb_qty_modes :: "string list \<Rightarrow> string list"

text \<open>An order function only reorders: it neither loses nor invents a row or a group.\<close>

definition reorders :: "('k list \<Rightarrow> 'k list) \<Rightarrow> bool" where
  "reorders f \<longleftrightarrow> (\<forall>ks. mset (f ks) = mset ks)"

definition engine_ok :: "engine \<Rightarrow> bool" where
  "engine_ok e \<longleftrightarrow>
     reorders (join_order e) \<and>
     reorders (gb_metrics e) \<and> reorders (gb_chain e) \<and> reorders (gb_qty_count e) \<and>
     reorders (gb_qty_groups e) \<and> reorders (gb_qty_modes e)"

text \<open>The distinct values of a column, in order of first appearance.\<close>

definition first_seen :: "'k list \<Rightarrow> 'k list" where
  "first_seen ks = rev (remdups (rev ks))"

text \<open>
  \<^verbatim>\<open>df.group_by(key)\<close>: one group per distinct key, holding the rows with that key in
  their order in the frame; the groups in the order the engine chooses.
\<close>

definition group_by :: "('k list \<Rightarrow> 'k list) \<Rightarrow> ('a \<Rightarrow> 'k) \<Rightarrow> 'a list \<Rightarrow> ('k \<times> 'a list) list" where
  "group_by order key df =
     map (\<lambda>k. (k, filter (\<lambda>row. key row = k) df)) (order (first_seen (map key df)))"

text \<open>\<^verbatim>\<open>df.group_by(key, maintain_order=True)\<close>: the groups in order of first appearance.\<close>

definition group_by_maintain_order :: "('a \<Rightarrow> 'k) \<Rightarrow> 'a list \<Rightarrow> ('k \<times> 'a list) list" where
  "group_by_maintain_order key df = group_by (\<lambda>ks. ks) key df"

text \<open>
  Three concrete engines for evaluation. All round half to even at two decimals. The
  first returns the rows of the join in the order of the claims and the groups in order
  of first appearance, the second returns both in the reverse order, and the third
  returns the rows of the join in the reverse order and the groups in order of first
  appearance.
\<close>

definition round_half_even2 :: "rat \<Rightarrow> rat" where
  "round_half_even2 x =
     (let y = x * 100; f = \<lfloor>y\<rfloor>; d = y - of_int f
      in of_int (if d < 1 / 2 then f else if 1 / 2 < d then f + 1
                 else if even f then f else f + 1) / 100)"

definition engine_first :: engine where
  "engine_first = \<lparr> round2 = round_half_even2, join_order = (\<lambda>rows. rows),
     gb_metrics = (\<lambda>ks. ks), gb_chain = (\<lambda>ks. ks), gb_qty_count = (\<lambda>ks. ks),
     gb_qty_groups = (\<lambda>ks. ks), gb_qty_modes = (\<lambda>ks. ks) \<rparr>"

definition engine_rev :: engine where
  "engine_rev = \<lparr> round2 = round_half_even2, join_order = rev,
     gb_metrics = rev, gb_chain = rev, gb_qty_count = rev,
     gb_qty_groups = rev, gb_qty_modes = rev \<rparr>"

definition engine_join_rev :: engine where
  "engine_join_rev = \<lparr> round2 = round_half_even2, join_order = rev,
     gb_metrics = (\<lambda>ks. ks), gb_chain = (\<lambda>ks. ks), gb_qty_count = (\<lambda>ks. ks),
     gb_qty_groups = (\<lambda>ks. ks), gb_qty_modes = (\<lambda>ks. ks) \<rparr>"

section \<open>Join and enrichment (processor.py)\<close>

text \<open>
  \<^verbatim>\<open>filter_to_pharmacy_dataset\<close>: the inner join of the claims with the npi column of the
  pharmacies. A claim comes out once for every pharmacy row with its npi, so not at all
  when there is none, and the rows come out in the order the engine chooses. The
  function only logs the number of rows dropped; it raises nothing, and the model
  returns the joined frame.
\<close>

definition filter_to_pharmacy_dataset ::
  "engine \<Rightarrow> ClaimRecord list \<Rightarrow> PharmacyRecord list \<Rightarrow> ClaimRecord list" where
  "filter_to_pharmacy_dataset e df_claims df_pharmacies =
     (let valid_npis = map p_npi df_pharmacies
      in join_order e
           (concat (map (\<lambda>c. map (\<lambda>_. c) (filter (\<lambda>n. c_npi c = n) valid_npis)) df_claims)))"

text \<open>
  \<^verbatim>\<open>mark_reverted_claims\<close>: every claim row gets the column \<^verbatim>\<open>is_reverted\<close>, true when
  its id is among the \<^verbatim>\<open>claim_id\<close> values of the reverts.
\<close>

definition mark_reverted_claims :: "ClaimRecord list \<Rightarrow> RevertRecord list \<Rightarrow> EnrichedClaim list" where
  "mark_reverted_claims df_claims df_reverts =
     (let reverted_ids = map r_claim_id df_reverts
      in map (\<lambda>c. \<lparr> c_id = c_id c, c_npi = c_npi c, c_ndc = c_ndc c, c_price = c_price c,
                     c_quantity = c_quantity c, c_timestamp = c_timestamp c,
                     is_reverted = (c_id c \<in> set reverted_ids) \<rparr>) df_claims)"

section \<open>Metrics per pharmacy and drug (processor.py)\<close>

text \<open>
  The frame after \<^verbatim>\<open>group_by(["npi", "ndc"]).agg([...])\<close>: one row per group, with the
  sums still unrounded.
\<close>

record MetricsAgg =
  a_npi :: string
  a_ndc :: string
  a_fills :: nat
  a_reverted :: nat
  a_total_price :: rat
  a_total_quantity :: rat

text \<open>A row of the report, as \<^verbatim>\<open>select\<close> leaves it.\<close>

record MetricRow =
  m_npi :: string
  m_ndc :: string
  fills :: nat
  reverted :: nat
  avg_price :: rat
  total_price :: rat

definition metrics_agg :: "(string \<times> string) \<times> EnrichedClaim list \<Rightarrow> MetricsAgg" where
  "metrics_agg kg =
     (case kg of ((npi, ndc), g) \<Rightarrow>
        \<lparr> a_npi = npi, a_ndc = ndc,
          a_fills = length g,
          a_reverted = length (filter is_reverted g),
          a_total_price = sum_list (map c_price g),
          a_total_quantity = sum_list (map c_quantity g) \<rparr>)"

text \<open>
  \<^verbatim>\<open>with_columns(when(total_quantity > 0).then((total_price / total_quantity).round(2))
  .otherwise(0.0))\<close> followed by the \<^verbatim>\<open>select\<close>, which rounds \<^verbatim>\<open>total_price\<close> only
  after the average has been taken.
\<close>

definition metrics_select :: "engine \<Rightarrow> MetricsAgg \<Rightarrow> MetricRow" where
  "metrics_select e a =
     (let avg = (if 0 < a_total_quantity a
                 then round2 e (a_total_price a / a_total_quantity a) else 0)
      in \<lparr> m_npi = a_npi a, m_ndc = a_ndc a, fills = a_fills a, reverted = a_reverted a,
           avg_price = avg, total_price = round2 e (a_total_price a) \<rparr>)"

text \<open>The rows that \<^verbatim>\<open>compute_npi_ndc_metrics\<close> writes, in the order it writes them.\<close>

definition compute_npi_ndc_metrics :: "engine \<Rightarrow> EnrichedClaim list \<Rightarrow> MetricRow list" where
  "compute_npi_ndc_metrics e df_claims =
     sort_key (\<lambda>r. (m_npi r, m_ndc r))
       (map (\<lambda>kg. metrics_select e (metrics_agg kg))
         (group_by (gb_metrics e) (\<lambda>c. (c_npi c, c_ndc c)) df_claims))"

text \<open>The claims of one (npi, ndc) group, for stating what a row holds.\<close>

definition claims_of :: "string \<Rightarrow> string \<Rightarrow> EnrichedClaim list \<Rightarrow> EnrichedClaim list" where
  "claims_of npi ndc df_claims = filter (\<lambda>c. (c_npi c, c_ndc c) = (npi, ndc)) df_claims"

section \<open>Chain recommendations (processor.py)\<close>

text \<open>
  \<^verbatim>\<open>df_claims.join(df_pharmacies, on="npi", how="left")\<close>: a claim comes out once for
  every pharmacy row with its npi, with that row's chain, and once with a null chain
  when there is none. A joined row is the pair of the claim and the chain.
\<close>

definition left_join_chain ::
  "EnrichedClaim list \<Rightarrow> PharmacyRecord list \<Rightarrow> (EnrichedClaim \<times> string option) list" where
  "left_join_chain df_claims df_pharmacies =
     concat (map (\<lambda>c. case filter (\<lambda>p. p_npi p = c_npi c) df_pharmacies of
                         [] \<Rightarrow> [(c, None)]
                       | ps \<Rightarrow> map (\<lambda>p. (c, Some (p_chain p))) ps) df_claims)"

text \<open>A row of \<^verbatim>\<open>chain_agg\<close>: the sums of one (ndc, chain) group and its average price.\<close>

record ChainAgg =
  g_ndc :: string
  g_chain :: "string option"
  g_total_price :: rat
  g_total_quantity :: rat
  g_avg_price :: "rat option"

definition chain_agg_row ::
  "engine \<Rightarrow> (string \<times> string option) \<times> (EnrichedClaim \<times> string option) list \<Rightarrow> ChainAgg" where
  "chain_agg_row e kg =
     (case kg of ((ndc, chain), g) \<Rightarrow>
        (let total_price = sum_list (map (\<lambda>row. c_price (fst row)) g);
             total_quantity = sum_list (map (\<lambda>row. c_quantity (fst row)) g)
         in \<lparr> g_ndc = ndc, g_chain = chain,
              g_total_price = total_price, g_total_quantity = total_quantity,
              g_avg_price = (if 0 < total_quantity
                             then Some (round2 e (total_price / total_quantity)) else None) \<rparr>))"

text \<open>
  \<^verbatim>\<open>chain_agg\<close>: group by (ndc, chain), aggregate, add the average, and keep the rows
  whose average is not null.
\<close>

definition chain_agg :: "engine \<Rightarrow> (EnrichedClaim \<times> string option) list \<Rightarrow> ChainAgg list" where
  "chain_agg e df_with_chain =
     filter (\<lambda>a. g_avg_price a \<noteq> None)
       (map (chain_agg_row e)
         (group_by (gb_chain e) (\<lambda>row. (c_ndc (fst row), snd row)) df_with_chain))"

text \<open>An entry of a recommendation list and a row of the report.\<close>

record ChainEntry =
  e_name :: "string option"
  e_avg_price :: rat

record DrugChainRec =
  d_ndc :: string
  d_chain :: "ChainEntry list"

text \<open>
  The lambda of \<^verbatim>\<open>map_elements\<close> calls \<^verbatim>\<open>float(p)\<close> on every price, which raises
  \<^verbatim>\<open>TypeError\<close> on \<^verbatim>\<open>None\<close>. An exception is a value of the model; the first one
  raised is the result. \<^verbatim>\<open>ValueError\<close> is raised by the loader and \<^verbatim>\<open>ComputeError\<close>
  by polars in the quantity report.
\<close>

datatype error = TypeError | ValueError | ComputeError

fun py_float :: "rat option \<Rightarrow> error + rat" where
  "py_float None = Inl TypeError"
| "py_float (Some p) = Inr p"

fun collect :: "(error + 'a) list \<Rightarrow> error + 'a list" where
  "collect [] = Inr []"
| "collect (x # xs) =
     (case x of
        Inl err \<Rightarrow> Inl err
      | Inr v \<Rightarrow> (case collect xs of Inl err \<Rightarrow> Inl err | Inr vs \<Rightarrow> Inr (v # vs)))"

text \<open>\<^verbatim>\<open>[{"name": n, "avg_price": float(p)} for n, p in zip(x["names"], x["prices"])]\<close>\<close>

definition chain_dicts :: "string option list \<Rightarrow> rat option list \<Rightarrow> error + ChainEntry list" where
  "chain_dicts names prices =
     collect (map (\<lambda>(n, p). case py_float p of
                               Inl err \<Rightarrow> Inl err
                             | Inr v \<Rightarrow> Inr \<lparr> e_name = n, e_avg_price = v \<rparr>) (zip names prices))"

text \<open>
  \<^verbatim>\<open>top_chains\<close>: sort on (ndc, avg_price, chain), nulls first as polars sorts them;
  group by ndc in that order; keep the first two (chain, avg_price) structs of each
  group; split them into the lists \<^verbatim>\<open>names\<close> and \<^verbatim>\<open>prices\<close>; build the list of
  dictionaries; sort the rows by ndc.
\<close>

definition top_chains :: "ChainAgg list \<Rightarrow> error + DrugChainRec list" where
  "top_chains agg =
     (let sorted_agg = sort_key (\<lambda>a. (g_ndc a, g_avg_price a, g_chain a)) agg;
          heads = map (\<lambda>(ndc, g). (ndc, take 2 (map (\<lambda>a. (g_chain a, g_avg_price a)) g)))
                    (group_by_maintain_order g_ndc sorted_agg);
          structs = map (\<lambda>(ndc, chain). (ndc, map fst chain, map snd chain)) heads
      in case collect (map (\<lambda>(ndc, names, prices).
                              case chain_dicts names prices of
                                Inl err \<Rightarrow> Inl err
                              | Inr chain \<Rightarrow> Inr \<lparr> d_ndc = ndc, d_chain = chain \<rparr>) structs) of
           Inl err \<Rightarrow> Inl err
         | Inr rows \<Rightarrow> Inr (sort_key d_ndc rows))"

text \<open>
  The rows that \<^verbatim>\<open>compute_chain_recommendations\<close> writes, or the exception it raises.
\<close>

definition compute_chain_recommendations ::
  "engine \<Rightarrow> EnrichedClaim list \<Rightarrow> PharmacyRecord list \<Rightarrow> error + DrugChainRec list" where
  "compute_chain_recommendations e df_claims df_pharmacies =
     (let df_with_chain = left_join_chain df_claims df_pharmacies
      in top_chains (chain_agg e df_with_chain))"

text \<open>
  For stating what a recommendation list holds: the eligible candidates of a drug, that
  is the rows of \<^verbatim>\<open>chain_agg\<close> for it, and the entry written for a candidate.
\<close>

definition chain_candidates ::
  "engine \<Rightarrow> EnrichedClaim list \<Rightarrow> PharmacyRecord list \<Rightarrow> string \<Rightarrow> ChainAgg list" where
  "chain_candidates e df_claims df_pharmacies ndc =
     filter (\<lambda>a. g_ndc a = ndc) (chain_agg e (left_join_chain df_claims df_pharmacies))"

definition entry_of :: "ChainAgg \<Rightarrow> ChainEntry" where
  "entry_of a =
     \<lparr> e_name = g_chain a, e_avg_price = (case g_avg_price a of Some p \<Rightarrow> p | None \<Rightarrow> 0) \<rparr>"

text \<open>The joined rows of one (ndc, chain) group and the sum of their quantities.\<close>

definition chain_group ::
  "string \<Rightarrow> string option \<Rightarrow> (EnrichedClaim \<times> string option) list
    \<Rightarrow> (EnrichedClaim \<times> string option) list" where
  "chain_group ndc chain df_with_chain =
     filter (\<lambda>row. (c_ndc (fst row), snd row) = (ndc, chain)) df_with_chain"

definition chain_quantity ::
  "string \<Rightarrow> string option \<Rightarrow> (EnrichedClaim \<times> string option) list \<Rightarrow> rat" where
  "chain_quantity ndc chain df_with_chain =
     sum_list (map (\<lambda>row. c_quantity (fst row)) (chain_group ndc chain df_with_chain))"

section \<open>Quantity insights (processor.py)\<close>

text \<open>
  The frame after \<^verbatim>\<open>group_by(["ndc", "quantity"]).agg(pl.count().alias("count"))\<close>, and
  the same with the column \<^verbatim>\<open>mode_qty\<close> that \<^verbatim>\<open>map_groups\<close> adds.
\<close>

record QtyCount =
  q_ndc :: string
  q_quantity :: rat
  q_count :: nat

record QtyMode = QtyCount +
  mode_qty :: "rat option"

text \<open>A row of the report.\<close>

record QuantityInsight =
  i_ndc :: string
  most_prescribed_quantity :: "rat list"

definition quantity_counts :: "engine \<Rightarrow> EnrichedClaim list \<Rightarrow> QtyCount list" where
  "quantity_counts e df_claims =
     map (\<lambda>kg. case kg of ((ndc, quantity), g) \<Rightarrow>
            \<lparr> q_ndc = ndc, q_quantity = quantity, q_count = length g \<rparr>)
       (group_by (gb_qty_count e) (\<lambda>c. (c_ndc c, c_quantity c)) df_claims)"

text \<open>
  \<^verbatim>\<open>df.group_by(key).map_groups(f)\<close>: the frames that \<open>f\<close> returns for the groups, one
  after the other in the order the engine chooses for the groups. On a frame without
  rows there is no group and polars raises \<^verbatim>\<open>ComputeError\<close>.
\<close>

definition map_groups ::
  "('k list \<Rightarrow> 'k list) \<Rightarrow> ('a \<Rightarrow> 'k) \<Rightarrow> ('a list \<Rightarrow> 'b list) \<Rightarrow> 'a list \<Rightarrow> error + 'b list" where
  "map_groups order key f df =
     (if df = [] then Inl ComputeError
      else Inr (concat (map (\<lambda>kg. f (snd kg)) (group_by order key df))))"

text \<open>
  The lambda given to \<^verbatim>\<open>map_groups\<close>: within one group, \<^verbatim>\<open>mode_qty\<close> is the quantity
  where the count is the group's largest, and null elsewhere. polars calls it on
  non-empty groups only.
\<close>

definition with_mode_qty :: "QtyCount list \<Rightarrow> QtyMode list" where
  "with_mode_qty g =
     map (\<lambda>r. \<lparr> q_ndc = q_ndc r, q_quantity = q_quantity r, q_count = q_count r,
                 mode_qty = (if q_count r = Max (set (map q_count g))
                             then Some (q_quantity r) else None) \<rparr>) g"

text \<open>\<^verbatim>\<open>Expr.drop_nulls()\<close>\<close>

fun drop_nulls :: "'a option list \<Rightarrow> 'a list" where
  "drop_nulls [] = []"
| "drop_nulls (None # xs) = drop_nulls xs"
| "drop_nulls (Some x # xs) = x # drop_nulls xs"

text \<open>
  The rows that \<^verbatim>\<open>compute_quantity_insights\<close> writes: count per (ndc, quantity); per
  ndc mark the quantities with the largest count; per ndc collect the marked quantities,
  sorted; keep the rows whose list is not empty; sort by ndc. Without a claim the frame
  of the counts has no row, \<^verbatim>\<open>map_groups\<close> raises, and nothing is written.
\<close>

definition compute_quantity_insights ::
  "engine \<Rightarrow> EnrichedClaim list \<Rightarrow> error + QuantityInsight list" where
  "compute_quantity_insights e df_claims =
     (let counts = quantity_counts e df_claims
      in case map_groups (gb_qty_groups e) q_ndc with_mode_qty counts of
           Inl err \<Rightarrow> Inl err
         | Inr modes \<Rightarrow>
             (let agg = map (\<lambda>kg. \<lparr> i_ndc = fst kg,
                                     most_prescribed_quantity =
                                       sort (drop_nulls (map mode_qty (snd kg))) \<rparr>)
                          (group_by (gb_qty_modes e) q_ndc modes)
              in Inr (sort_key i_ndc (filter (\<lambda>r. 0 < length (most_prescribed_quantity r)) agg))))"

text \<open>
  For stating what a row holds: the number of claims of a drug with a given quantity,
  the quantities dispensed of a drug, and those among them with the largest number of
  claims.
\<close>

definition quantity_count :: "string \<Rightarrow> rat \<Rightarrow> EnrichedClaim list \<Rightarrow> nat" where
  "quantity_count ndc quantity df_claims =
     length (filter (\<lambda>c. (c_ndc c, c_quantity c) = (ndc, quantity)) df_claims)"

definition drug_quantities :: "string \<Rightarrow> EnrichedClaim list \<Rightarrow> rat set" where
  "drug_quantities ndc df_claims = c_quantity ` set (filter (\<lambda>c. c_ndc c = ndc) df_claims)"

definition mode_quantities :: "string \<Rightarrow> EnrichedClaim list \<Rightarrow> rat set" where
  "mode_quantities ndc df_claims =
     {q \<in> drug_quantities ndc df_claims.
        \<forall>q' \<in> drug_quantities ndc df_claims.
          quantity_count ndc q' df_claims \<le> quantity_count ndc q df_claims}"

section \<open>The pipeline (processor.py)\<close>

text \<open>
  \<^verbatim>\<open>run_pharmacy_analytics\<close>: filter, mark, and write the three reports in turn. The
  model returns the three reports, or the exception that ends the run: one of the chain
  report ends it before the quantity report, with the metrics written, and one of the
  quantity report ends it with the metrics and the chain report written.
\<close>

definition run_pharmacy_analytics ::
  "engine \<Rightarrow> ClaimRecord list \<Rightarrow> RevertRecord list \<Rightarrow> PharmacyRecord list
    \<Rightarrow> error + (MetricRow list \<times> DrugChainRec list \<times> QuantityInsight list)" where
  "run_pharmacy_analytics e df_claims df_reverts df_pharmacies =
     (let df_claims1 = filter_to_pharmacy_dataset e df_claims df_pharmacies;
          df_claims2 = mark_reverted_claims df_claims1 df_reverts;
          npi_metrics = compute_npi_ndc_metrics e df_claims2
      in case compute_chain_recommendations e df_claims2 df_pharmacies of
           Inl err \<Rightarrow> Inl err
         | Inr chain_recommendations \<Rightarrow>
             (case compute_quantity_insights e df_claims2 of
                Inl err \<Rightarrow> Inl err
              | Inr quantity_modes \<Rightarrow> Inr (npi_metrics, chain_recommendations, quantity_modes)))"

text \<open>
  For stating that the mark of a claim has no part in an aggregate: the claim with its
  mark cleared, and a metrics row without its \<open>reverted\<close> column.
\<close>

definition unmark :: "EnrichedClaim \<Rightarrow> EnrichedClaim" where
  "unmark c = c\<lparr> is_reverted := False \<rparr>"

definition without_reverted :: "MetricRow \<Rightarrow> string \<times> string \<times> nat \<times> rat \<times> rat" where
  "without_reverted r = (m_npi r, m_ndc r, fills r, avg_price r, total_price r)"

section \<open>Loading the input files (loader.py, main.py)\<close>

text \<open>
  An input directory that does not exist is skipped, and so is every file of a directory
  that has the wrong suffix, lacks a column or fails to parse; what remains of a file is
  its frame. A directory is \<open>None\<close> or the list of its files in the order the file system
  lists them, a file \<open>None\<close> or its frame.
\<close>

type_synonym 'a data_file = "'a list option"
type_synonym 'a directory = "'a data_file list option"

text \<open>
  \<^verbatim>\<open>unique(subset=key)\<close> keeps one row for every value of the key; with the defaults
  (\<^verbatim>\<open>keep="any"\<close>, \<^verbatim>\<open>maintain_order=False\<close>) polars promises neither which row of a key
  stays nor the order of the result. The three calls of the loader are the fields of a
  \<open>reader\<close>; \<open>reader_ok\<close> is what polars promises of them. \<open>unique_first\<close> is one such
  function: the first row of every key, in the order of the frame.
\<close>

record reader =
  unique_npi :: "PharmacyRecord list \<Rightarrow> PharmacyRecord list"
  unique_claim_id :: "ClaimRecord list \<Rightarrow> ClaimRecord list"
  unique_revert_id :: "RevertRecord list \<Rightarrow> RevertRecord list"

definition uniques :: "('a \<Rightarrow> 'k) \<Rightarrow> ('a list \<Rightarrow> 'a list) \<Rightarrow> bool" where
  "uniques key u \<longleftrightarrow>
     (\<forall>df. distinct (map key (u df)) \<and> set (u df) \<subseteq> set df \<and> key ` set (u df) = key ` set df)"

definition reader_ok :: "reader \<Rightarrow> bool" where
  "reader_ok rd \<longleftrightarrow> uniques p_npi (unique_npi rd) \<and> uniques c_id (unique_claim_id rd)
     \<and> uniques r_id (unique_revert_id rd)"

fun unique_first :: "('a \<Rightarrow> 'k) \<Rightarrow> 'a list \<Rightarrow> 'a list" where
  "unique_first key [] = []"
| "unique_first key (x # xs) = x # filter (\<lambda>y. key y \<noteq> key x) (unique_first key xs)"

definition reader_first :: reader where
  "reader_first = \<lparr> unique_npi = unique_first p_npi, unique_claim_id = unique_first c_id,
                     unique_revert_id = unique_first r_id \<rparr>"

text \<open>
  \<^verbatim>\<open>load_pharmacies\<close>: every readable CSV file is reduced to one row for each npi and
  appended to \<^verbatim>\<open>dfs\<close>; no frame at all raises \<^verbatim>\<open>ValueError\<close>; the result is
  \<^verbatim>\<open>pl.concat(dfs)\<close>, the frames one after the other.
\<close>

definition load_pharmacies :: "reader \<Rightarrow> PharmacyRecord directory list \<Rightarrow> error + PharmacyRecord list" where
  "load_pharmacies rd dirs =
     (let dfs = [unique_npi rd df. Some files \<leftarrow> dirs, Some df \<leftarrow> files]
      in if dfs = [] then Inl ValueError else Inr (concat dfs))"

text \<open>
  \<^verbatim>\<open>load_events\<close>, for claims and for reverts: every readable JSON file is reduced to
  one row for each id and appended to \<^verbatim>\<open>dfs\<close>; no frame at all gives the empty frame;
  the result is \<^verbatim>\<open>pl.concat(dfs)\<close>.
\<close>

definition load_events :: "('a list \<Rightarrow> 'a list) \<Rightarrow> 'a directory list \<Rightarrow> 'a list" where
  "load_events unique_id dirs =
     (let dfs = [unique_id df. Some files \<leftarrow> dirs, Some df \<leftarrow> files]
      in if dfs = [] then [] else concat dfs)"

text \<open>
  \<^verbatim>\<open>main\<close>: load the pharmacies, the claims and the reverts, and run the reports on the
  three frames as loaded.
\<close>

definition main ::
  "reader \<Rightarrow> engine \<Rightarrow> PharmacyRecord directory list \<Rightarrow> ClaimRecord directory list
    \<Rightarrow> RevertRecord directory list
    \<Rightarrow> error + (MetricRow list \<times> DrugChainRec list \<times> QuantityInsight list)" where
  "main rd e pharmacy claims reverts =
     (case load_pharmacies rd pharmacy of
        Inl err \<Rightarrow> Inl err
      | Inr df_pharmacies \<Rightarrow>
          (let df_claims = load_events (unique_claim_id rd) claims;
               df_reverts = load_events (unique_revert_id rd) reverts
           in run_pharmacy_analytics e df_claims df_reverts df_pharmacies))"

section \<open>Example data\<close>

text \<open>The scenario of the specification's section 8, used to evaluate the model.\<close>

definition ex_pharmacies :: "PharmacyRecord list" where
  "ex_pharmacies = [\<lparr> p_npi = ''1'', p_chain = ''A'' \<rparr>, \<lparr> p_npi = ''2'', p_chain = ''B'' \<rparr>]"

definition ex_c1 :: ClaimRecord where
  "ex_c1 = \<lparr> c_id = ''c1'', c_npi = ''1'', c_ndc = ''d1'', c_price = 10, c_quantity = 2,
             c_timestamp = ''t1'' \<rparr>"

definition ex_c2 :: ClaimRecord where
  "ex_c2 = \<lparr> c_id = ''c2'', c_npi = ''2'', c_ndc = ''d1'', c_price = 9, c_quantity = 3,
             c_timestamp = ''t2'' \<rparr>"

definition ex_c3 :: ClaimRecord where
  "ex_c3 = \<lparr> c_id = ''c3'', c_npi = ''9'', c_ndc = ''d1'', c_price = 100, c_quantity = 1,
             c_timestamp = ''t3'' \<rparr>"

definition ex_r1 :: RevertRecord where
  "ex_r1 = \<lparr> r_id = ''r1'', r_claim_id = ''c1'', r_timestamp = ''t4'' \<rparr>"

definition ex_enriched :: "EnrichedClaim list" where
  "ex_enriched =
     mark_reverted_claims
       (filter_to_pharmacy_dataset engine_first [ex_c1, ex_c2, ex_c3] ex_pharmacies) [ex_r1]"

text \<open>A claim that dispenses nothing, and a claim that costs nothing.\<close>

definition ex_zero :: EnrichedClaim where
  "ex_zero = \<lparr> c_id = ''c4'', c_npi = ''2'', c_ndc = ''d2'', c_price = 7, c_quantity = 0,
               c_timestamp = ''t5'', is_reverted = False \<rparr>"

definition ex_free :: EnrichedClaim where
  "ex_free = \<lparr> c_id = ''c5'', c_npi = ''1'', c_ndc = ''d2'', c_price = 0, c_quantity = 5,
               c_timestamp = ''t6'', is_reverted = False \<rparr>"

text \<open>
  Two claims of one group whose prices add up to 1.004 and whose quantities add up to
  0.2: the average of the unrounded sum is 5.02, that of the rounded sum would be 5.
\<close>

definition ex_fine :: "EnrichedClaim list" where
  "ex_fine =
     [\<lparr> c_id = ''c6'', c_npi = ''1'', c_ndc = ''d3'', c_price = 1 / 2, c_quantity = 1 / 10,
        c_timestamp = ''t7'', is_reverted = False \<rparr>,
      \<lparr> c_id = ''c7'', c_npi = ''1'', c_ndc = ''d3'', c_price = 504 / 1000, c_quantity = 1 / 10,
        c_timestamp = ''t8'', is_reverted = True \<rparr>]"

text \<open>
  Four chains for the drug d1, with average prices A: 5, B: 3, C: 3 and D: 1, and the
  claim without quantity as the only claim of d2.
\<close>

definition ex_pharmacies4 :: "PharmacyRecord list" where
  "ex_pharmacies4 =
     ex_pharmacies @ [\<lparr> p_npi = ''3'', p_chain = ''C'' \<rparr>, \<lparr> p_npi = ''4'', p_chain = ''D'' \<rparr>]"

definition ex_tie :: "EnrichedClaim list" where
  "ex_tie = ex_zero # ex_enriched @
     [\<lparr> c_id = ''c8'', c_npi = ''3'', c_ndc = ''d1'', c_price = 6, c_quantity = 2,
        c_timestamp = ''t9'', is_reverted = False \<rparr>,
      \<lparr> c_id = ''c9'', c_npi = ''4'', c_ndc = ''d1'', c_price = 1, c_quantity = 1,
        c_timestamp = ''t10'', is_reverted = True \<rparr>]"

text \<open>A fifth chain E whose only claim of d1 dispenses nothing.\<close>

definition ex_pharmacies5 :: "PharmacyRecord list" where
  "ex_pharmacies5 = ex_pharmacies4 @ [\<lparr> p_npi = ''5'', p_chain = ''E'' \<rparr>]"

definition ex_null :: EnrichedClaim where
  "ex_null = \<lparr> c_id = ''c10'', c_npi = ''5'', c_ndc = ''d1'', c_price = 1 / 2, c_quantity = 0,
               c_timestamp = ''t11'', is_reverted = False \<rparr>"

text \<open>
  Claims in which the quantities 2 and 3 of d1 are dispensed twice each, and three
  other quantities once.
\<close>

definition ex_qty :: "EnrichedClaim list" where
  "ex_qty = ex_null # ex_tie @ ex_fine @
     [\<lparr> c_id = ''c11'', c_npi = ''1'', c_ndc = ''d1'', c_price = 4, c_quantity = 3,
        c_timestamp = ''t12'', is_reverted = False \<rparr>]"

text \<open>Raw claims for a run of the whole pipeline: the claims above without their marks.\<close>

definition ex_raw_claims :: "ClaimRecord list" where
  "ex_raw_claims = ex_c3 # map ClaimRecord.truncate ex_qty"

definition ex_reports :: "MetricRow list \<times> DrugChainRec list \<times> QuantityInsight list" where
  "ex_reports =
     ([\<lparr> m_npi = ''1'', m_ndc = ''d1'', fills = 2, reverted = 1, avg_price = 14 / 5, total_price = 14 \<rparr>,
       \<lparr> m_npi = ''1'', m_ndc = ''d3'', fills = 2, reverted = 0, avg_price = 251 / 50, total_price = 1 \<rparr>,
       \<lparr> m_npi = ''2'', m_ndc = ''d1'', fills = 1, reverted = 0, avg_price = 3, total_price = 9 \<rparr>,
       \<lparr> m_npi = ''2'', m_ndc = ''d2'', fills = 1, reverted = 0, avg_price = 0, total_price = 7 \<rparr>,
       \<lparr> m_npi = ''3'', m_ndc = ''d1'', fills = 1, reverted = 0, avg_price = 3, total_price = 6 \<rparr>,
       \<lparr> m_npi = ''4'', m_ndc = ''d1'', fills = 1, reverted = 0, avg_price = 1, total_price = 1 \<rparr>,
       \<lparr> m_npi = ''5'', m_ndc = ''d1'', fills = 1, reverted = 0, avg_price = 0, total_price = 1 / 2 \<rparr>],
      [\<lparr> d_ndc = ''d1'',
         d_chain = [\<lparr> e_name = Some ''D'', e_avg_price = 1 \<rparr>,
                    \<lparr> e_name = Some ''A'', e_avg_price = 14 / 5 \<rparr>] \<rparr>,
       \<lparr> d_ndc = ''d3'', d_chain = [\<lparr> e_name = Some ''A'', e_avg_price = 251 / 50 \<rparr>] \<rparr>],
      [\<lparr> i_ndc = ''d1'', most_prescribed_quantity = [2, 3] \<rparr>,
       \<lparr> i_ndc = ''d2'', most_prescribed_quantity = [0] \<rparr>,
       \<lparr> i_ndc = ''d3'', most_prescribed_quantity = [1 / 10] \<rparr>])"

text \<open>A pharmacy for the claim \<open>ex_c1\<close>, to be read from one file or from two.\<close>

definition ex_p1 :: PharmacyRecord where
  "ex_p1 = \<lparr> p_npi = ''1'', p_chain = ''A'' \<rparr>"

section \<open>Facts about grouping\<close>

lemma set_first_seen: "set (first_seen ks) = set ks"
  by (simp add: first_seen_def)

lemma distinct_first_seen: "distinct (first_seen ks)"
  by (simp add: first_seen_def)

lemma reorders_set: "reorders f \<Longrightarrow> set (f ks) = set ks"
  unfolding reorders_def by (metis set_mset_mset)

lemma reorders_distinct: "reorders f \<Longrightarrow> distinct (f ks) = distinct ks"
  unfolding reorders_def by (metis mset_eq_imp_distinct_iff)

lemma reorders_id: "reorders (\<lambda>ks. ks)"
  by (simp add: reorders_def)

lemma reorders_rev: "reorders rev"
  by (simp add: reorders_def)

lemma engine_ok_first: "engine_ok engine_first"
  by (simp add: engine_ok_def engine_first_def reorders_id)

lemma engine_ok_rev: "engine_ok engine_rev"
  by (simp add: engine_ok_def engine_rev_def reorders_rev)


text \<open>
  A frame that is grouped, aggregated to one row per group and then sorted on the group
  key does not depend on the order in which the groups came out.
\<close>

lemma insort_key_map_inverse:
  assumes "\<And>k. kf (f k) = k"
  shows "insort_key kf (f x) (map f xs) = map f (insort x xs)"
  by (induction xs) (simp_all add: assms)

lemma sort_key_map_inverse:
  assumes "\<And>k. kf (f k) = k"
  shows "sort_key kf (map f xs) = map f (sort xs)"
  by (induction xs) (simp_all add: insort_key_map_inverse [of kf f] assms)

lemma sort_reorders:
  assumes "reorders order" and "distinct ks"
  shows "sort (order ks) = sorted_list_of_set (set ks)"
proof -
  have "distinct (order ks)" and "set (order ks) = set ks"
    using assms by (simp_all add: reorders_distinct reorders_set)
  then show ?thesis
    by (metis sorted_list_of_set_sort_remdups distinct_remdups_id)
qed

lemma grouped_sorted:
  assumes "reorders order" and "\<And>k g. kf (row (k, g)) = k"
  shows "sort_key kf (map row (group_by order key df))
         = map (\<lambda>k. row (k, filter (\<lambda>r. key r = k) df)) (sorted_list_of_set (key ` set df))"
proof -
  let ?f = "\<lambda>k. row (k, filter (\<lambda>r. key r = k) df)"
  have "sort_key kf (map row (group_by order key df))
        = sort_key kf (map ?f (order (first_seen (map key df))))"
    by (simp add: group_by_def comp_def)
  also have "\<dots> = map ?f (sort (order (first_seen (map key df))))"
    by (rule sort_key_map_inverse) (simp add: assms(2))
  also have "sort (order (first_seen (map key df))) = sorted_list_of_set (key ` set df)"
    using sort_reorders [OF assms(1) distinct_first_seen, of "map key df"]
    by (simp add: set_first_seen)
  finally show ?thesis .
qed

lemma compute_npi_ndc_metrics_rows:
  assumes "engine_ok e"
  shows "compute_npi_ndc_metrics e df_claims
         = map (\<lambda>k. metrics_select e (metrics_agg (k, filter (\<lambda>c. (c_npi c, c_ndc c) = k) df_claims)))
             (sorted_list_of_set ((\<lambda>c. (c_npi c, c_ndc c)) ` set df_claims))"
  unfolding compute_npi_ndc_metrics_def
  by (rule grouped_sorted)
    (use assms in \<open>simp_all add: engine_ok_def metrics_select_def metrics_agg_def Let_def
      split: prod.split\<close>)

lemma metrics_row_key:
  "(m_npi (metrics_select e (metrics_agg (k, g))), m_ndc (metrics_select e (metrics_agg (k, g)))) = k"
  by (simp add: metrics_select_def metrics_agg_def Let_def split: prod.split)

lemma compute_npi_ndc_metrics_keys:
  assumes "engine_ok e"
  shows "map (\<lambda>r. (m_npi r, m_ndc r)) (compute_npi_ndc_metrics e df_claims)
         = sorted_list_of_set ((\<lambda>c. (c_npi c, c_ndc c)) ` set df_claims)"
  by (simp add: compute_npi_ndc_metrics_rows [OF assms] comp_def metrics_row_key)

lemma compute_npi_ndc_metrics_row:
  assumes "engine_ok e" and "r \<in> set (compute_npi_ndc_metrics e df_claims)"
  shows "r = metrics_select e (metrics_agg ((m_npi r, m_ndc r), claims_of (m_npi r) (m_ndc r) df_claims))"
proof -
  from assms obtain k where
    r: "r = metrics_select e (metrics_agg (k, filter (\<lambda>c. (c_npi c, c_ndc c) = k) df_claims))"
    by (auto simp: compute_npi_ndc_metrics_rows)
  then have "(m_npi r, m_ndc r) = k"
    by (simp add: metrics_row_key)
  with r show ?thesis
    by (simp add: claims_of_def)
qed

lemmas ex_defs =
  ex_pharmacies_def ex_c1_def ex_c2_def ex_c3_def ex_r1_def ex_enriched_def ex_zero_def
  ex_free_def ex_fine_def ex_pharmacies4_def ex_tie_def ex_pharmacies5_def ex_null_def
  ex_qty_def ex_raw_claims_def ex_reports_def

lemmas model_defs =
  filter_to_pharmacy_dataset_def mark_reverted_claims_def group_by_def first_seen_def
  engine_first_def engine_rev_def engine_join_rev_def round_half_even2_def
  compute_npi_ndc_metrics_def metrics_select_def metrics_agg_def claims_of_def Let_def

text \<open>The report of the chains, when no price is null.\<close>

lemma collect_map_Inr:
  assumes "\<And>x. x \<in> set xs \<Longrightarrow> f x = Inr (g x)"
  shows "collect (map f xs) = Inr (map g xs)"
  using assms by (induction xs) simp_all

lemma chain_dicts_entries:
  assumes "\<forall>a \<in> set as. g_avg_price a \<noteq> None"
  shows "chain_dicts (map fst (map (\<lambda>a. (g_chain a, g_avg_price a)) as))
           (map snd (map (\<lambda>a. (g_chain a, g_avg_price a)) as)) = Inr (map entry_of as)"
proof -
  let ?F = "\<lambda>(n, p). case py_float p of
                               Inl err \<Rightarrow> Inl err
                             | Inr v \<Rightarrow> Inr \<lparr> e_name = n, e_avg_price = v \<rparr>"
  have "chain_dicts (map fst (map (\<lambda>a. (g_chain a, g_avg_price a)) as))
           (map snd (map (\<lambda>a. (g_chain a, g_avg_price a)) as))
        = collect (map (\<lambda>a. ?F (g_chain a, g_avg_price a)) as)"
    unfolding chain_dicts_def zip_map_fst_snd by (simp add: comp_def)
  also have "\<dots> = Inr (map entry_of as)"
    by (rule collect_map_Inr) (use assms in \<open>auto simp: entry_of_def\<close>)
  finally show ?thesis .
qed

lemma group_by_member:
  "(k, g) \<in> set (group_by order key df) \<Longrightarrow> g = filter (\<lambda>row. key row = k) df"
  by (auto simp: group_by_def)

lemma top_chains_rows:
  assumes "\<forall>a \<in> set agg. g_avg_price a \<noteq> None"
  shows "top_chains agg =
    Inr (map (\<lambda>d. \<lparr> d_ndc = d, d_chain = map entry_of (take 2 (filter (\<lambda>a. g_ndc a = d)
                 (sort_key (\<lambda>a. (g_ndc a, g_avg_price a, g_chain a)) agg))) \<rparr>)
          (sorted_list_of_set (g_ndc ` set agg)))"
proof -
  let ?S = "sort_key (\<lambda>a. (g_ndc a, g_avg_price a, g_chain a)) agg"
  let ?groups = "group_by (\<lambda>ks. ks) g_ndc ?S"
  let ?row = "\<lambda>kg. \<lparr> d_ndc = fst kg, d_chain = map entry_of (take 2 (snd kg)) \<rparr>"
  let ?G = "\<lambda>(ndc, names, prices).
                              case chain_dicts names prices of
                                Inl err \<Rightarrow> Inl err
                              | Inr chain \<Rightarrow> Inr \<lparr> d_ndc = ndc, d_chain = chain \<rparr>"
  let ?T = "\<lambda>(ndc, chain). (ndc, map fst chain, map snd chain)"
  let ?H = "\<lambda>(ndc, g). (ndc, take 2 (map (\<lambda>a. (g_chain a, g_avg_price a)) g))"
  have step: "?G (?T (?H kg)) = Inr (?row kg)" if "kg \<in> set ?groups" for kg
  proof -
    obtain k g where kg: "kg = (k, g)" by (cases kg)
    with that have "g = filter (\<lambda>a. g_ndc a = k) ?S"
      by (simp add: group_by_member)
    then have "set (take 2 g) \<subseteq> set agg"
      using set_take_subset [of 2 g] by auto
    with assms have "\<forall>a \<in> set (take 2 g). g_avg_price a \<noteq> None"
      by blast
    from chain_dicts_entries [OF this] show ?thesis
      by (simp add: kg take_map)
  qed
  have "collect (map ?G (map ?T (map ?H ?groups))) = collect (map (\<lambda>kg. ?G (?T (?H kg))) ?groups)"
    by (simp add: comp_def)
  also have "\<dots> = Inr (map ?row ?groups)"
    by (rule collect_map_Inr) (rule step)
  finally have collected: "collect (map ?G (map ?T (map ?H ?groups))) = Inr (map ?row ?groups)" .
  have "top_chains agg = Inr (sort_key d_ndc (map ?row ?groups))"
    by (simp only: top_chains_def group_by_maintain_order_def Let_def collected sum.case)
  also have "sort_key d_ndc (map ?row ?groups)
      = map (\<lambda>k. ?row (k, filter (\<lambda>a. g_ndc a = k) ?S)) (sorted_list_of_set (g_ndc ` set ?S))"
    by (rule grouped_sorted [OF reorders_id]) simp
  finally show ?thesis by simp
qed

text \<open>Sorting within one drug, and the first entries of a sorted list.\<close>

lemma insort_key_cong_le:
  assumes "\<forall>y \<in> set ys. (f a \<le> f y) = (g a \<le> g y)"
  shows "insort_key f a ys = insort_key g a ys"
  using assms by (induction ys) simp_all

lemma sort_key_cong_le:
  assumes "\<forall>x \<in> set xs. \<forall>y \<in> set xs. (f x \<le> f y) = (g x \<le> g y)"
  shows "sort_key f xs = sort_key g xs"
  using assms
proof (induction xs)
  case Nil
  then show ?case by simp
next
  case (Cons x xs)
  then have "sort_key f xs = sort_key g xs"
    by simp
  moreover have "insort_key f x (sort_key g xs) = insort_key g x (sort_key g xs)"
    by (rule insort_key_cong_le) (use Cons.prems in simp)
  ultimately show ?case by simp
qed

lemma filter_ndc_sorted:
  "filter (\<lambda>a. g_ndc a = d) (sort_key (\<lambda>a. (g_ndc a, g_avg_price a, g_chain a)) agg)
   = sort_key (\<lambda>a. (g_avg_price a, g_chain a)) (filter (\<lambda>a. g_ndc a = d) agg)"
proof -
  have "sort_key (\<lambda>a. (g_ndc a, g_avg_price a, g_chain a)) (filter (\<lambda>a. g_ndc a = d) agg)
        = sort_key (\<lambda>a. (g_avg_price a, g_chain a)) (filter (\<lambda>a. g_ndc a = d) agg)"
    by (rule sort_key_cong_le) auto
  then show ?thesis
    by (simp add: filter_sort)
qed

lemma entry_key_le:
  assumes "g_avg_price a \<noteq> None" and "g_avg_price b \<noteq> None"
  shows "((e_avg_price (entry_of a), e_name (entry_of a))
            \<le> (e_avg_price (entry_of b), e_name (entry_of b)))
         = ((g_avg_price a, g_chain a) \<le> (g_avg_price b, g_chain b))"
proof -
  from assms obtain p q where "g_avg_price a = Some p" and "g_avg_price b = Some q"
    by auto
  then show ?thesis
    by (simp add: entry_of_def)
qed

lemma sorted_entries:
  assumes "\<forall>a \<in> set as. g_avg_price a \<noteq> None"
    and "sorted (map (\<lambda>a. (g_avg_price a, g_chain a)) as)"
  shows "sorted (map (\<lambda>en. (e_avg_price en, e_name en)) (map entry_of as))"
proof -
  have "sorted_wrt (\<lambda>a b. (g_avg_price a, g_chain a) \<le> (g_avg_price b, g_chain b)) as"
    using assms(2) by (simp add: sorted_map)
  then have "sorted_wrt (\<lambda>a b. (e_avg_price (entry_of a), e_name (entry_of a))
                              \<le> (e_avg_price (entry_of b), e_name (entry_of b))) as"
  proof (rule sorted_wrt_mono_rel [rotated])
    fix a b
    assume "a \<in> set as" and "b \<in> set as"
      and "(g_avg_price a, g_chain a) \<le> (g_avg_price b, g_chain b)"
    with assms(1) entry_key_le [of a b]
    show "(e_avg_price (entry_of a), e_name (entry_of a))
            \<le> (e_avg_price (entry_of b), e_name (entry_of b))"
      by blast
  qed
  then show ?thesis
    by (simp add: sorted_map comp_def)
qed

lemma chain_agg_avg_price: "a \<in> set (chain_agg e df_with_chain) \<Longrightarrow> g_avg_price a \<noteq> None"
  by (simp add: chain_agg_def)

lemma chain_candidates_avg_price:
  "a \<in> set (chain_candidates e df_claims df_pharmacies d) \<Longrightarrow> g_avg_price a \<noteq> None"
  using chain_agg_avg_price [of a e "left_join_chain df_claims df_pharmacies"]
  by (simp add: chain_candidates_def)

lemma compute_chain_recommendations_rows:
  "compute_chain_recommendations e df_claims df_pharmacies =
    Inr (map (\<lambda>d. \<lparr> d_ndc = d, d_chain = map entry_of (take 2
                 (sort_key (\<lambda>a. (g_avg_price a, g_chain a))
                    (chain_candidates e df_claims df_pharmacies d))) \<rparr>)
          (sorted_list_of_set (g_ndc ` set (chain_agg e (left_join_chain df_claims df_pharmacies)))))"
  by (simp add: compute_chain_recommendations_def top_chains_rows chain_agg_avg_price
      filter_ndc_sorted chain_candidates_def Let_def)

lemma take_sort_key_least:
  assumes "x \<in> set xs" and "x \<notin> set (take n (sort_key k xs))"
    and "y \<in> set (take n (sort_key k xs))"
  shows "k y \<le> k x"
proof -
  let ?L = "sort_key k xs"
  have "set ?L = set (take n ?L) \<union> set (drop n ?L)"
    by (metis append_take_drop_id set_append)
  with assms(1,2) have "x \<in> set (drop n ?L)"
    by simp
  moreover have "sorted (map k (take n ?L) @ map k (drop n ?L))"
    by (simp flip: map_append)
  ultimately show ?thesis
    using assms(3) by (auto simp: sorted_append)
qed

lemma top2_sorted:
  assumes "\<forall>a \<in> set cs. g_avg_price a \<noteq> None"
  shows "sorted (map (\<lambda>en. (e_avg_price en, e_name en))
           (map entry_of (take 2 (sort_key (\<lambda>a. (g_avg_price a, g_chain a)) cs))))"
proof (rule sorted_entries)
  show "\<forall>a \<in> set (take 2 (sort_key (\<lambda>a. (g_avg_price a, g_chain a)) cs)). g_avg_price a \<noteq> None"
    using assms set_take_subset [of 2 "sort_key (\<lambda>a. (g_avg_price a, g_chain a)) cs"] by auto
  have "sorted (take 2 (map (\<lambda>a. (g_avg_price a, g_chain a))
      (sort_key (\<lambda>a. (g_avg_price a, g_chain a)) cs)))"
    by (rule sorted_wrt_take) simp
  then show "sorted (map (\<lambda>a. (g_avg_price a, g_chain a))
      (take 2 (sort_key (\<lambda>a. (g_avg_price a, g_chain a)) cs)))"
    by (simp add: take_map)
qed

lemma sorted_fst_of_pairs:
  assumes "sorted (map (\<lambda>en. (e_avg_price en, e_name en)) es)"
  shows "sorted (map e_avg_price es)"
proof -
  have "sorted_wrt (\<lambda>a b. (e_avg_price a, e_name a) \<le> (e_avg_price b, e_name b)) es"
    using assms by (simp add: sorted_map)
  then have "sorted_wrt (\<lambda>a b. e_avg_price a \<le> e_avg_price b) es"
    by (rule sorted_wrt_mono_rel [rotated]) auto
  then show ?thesis
    by (simp add: sorted_map)
qed

lemma top2_least:
  assumes "\<forall>a \<in> set cs. g_avg_price a \<noteq> None"
    and "a \<in> set cs"
    and "entry_of a \<notin> set (map entry_of (take 2 (sort_key (\<lambda>a. (g_avg_price a, g_chain a)) cs)))"
    and "en \<in> set (map entry_of (take 2 (sort_key (\<lambda>a. (g_avg_price a, g_chain a)) cs)))"
  shows "(e_avg_price en, e_name en) \<le> (e_avg_price (entry_of a), e_name (entry_of a))"
proof -
  let ?T = "take 2 (sort_key (\<lambda>a. (g_avg_price a, g_chain a)) cs)"
  from assms(4) obtain b where b: "b \<in> set ?T" and en: "en = entry_of b"
    by auto
  from assms(3) have "a \<notin> set ?T"
    by auto
  from take_sort_key_least [OF assms(2) this b]
  have le: "(g_avg_price b, g_chain b) \<le> (g_avg_price a, g_chain a)" .
  from b have "b \<in> set cs"
    using set_take_subset [of 2 "sort_key (\<lambda>a. (g_avg_price a, g_chain a)) cs"] by auto
  with assms(1,2) have "g_avg_price b \<noteq> None" and "g_avg_price a \<noteq> None"
    by auto
  from entry_key_le [OF this] le show ?thesis
    by (simp only: en)
qed

lemma chain_agg_member:
  assumes "a \<in> set (chain_agg e df_with_chain)"
  shows "0 < chain_quantity (g_ndc a) (g_chain a) df_with_chain"
proof -
  from assms obtain k where
    a: "a = chain_agg_row e (k, filter (\<lambda>row. (c_ndc (fst row), snd row) = k) df_with_chain)"
    and avg: "g_avg_price a \<noteq> None"
    by (auto simp: chain_agg_def group_by_def)
  obtain d ch where k: "k = (d, ch)"
    by (cases k)
  from avg show ?thesis
    unfolding a k
    by (simp add: chain_agg_row_def chain_quantity_def chain_group_def Let_def split: if_splits)
qed

lemma chain_agg_row_null:
  assumes "chain_quantity d ch df_with_chain = 0"
  shows "g_avg_price (chain_agg_row e ((d, ch), chain_group d ch df_with_chain)) = None"
  using assms by (simp add: chain_agg_row_def chain_quantity_def Let_def)

text \<open>The quantity report: counts, marked quantities and the rows.\<close>

lemma drop_nulls_if:
  "drop_nulls (map (\<lambda>r. if P r then Some (f r) else None) xs) = map f (filter P xs)"
  by (induction xs) simp_all

lemma drop_nulls_modes:
  "drop_nulls (map mode_qty (with_mode_qty g))
   = map q_quantity (filter (\<lambda>r. q_count r = Max (set (map q_count g))) g)"
  using drop_nulls_if [of "\<lambda>r. q_count r = Max (set (map q_count g))" q_quantity g]
  by (simp add: with_mode_qty_def comp_def)

lemma filter_concat_groups:
  assumes "distinct ds" and "\<And>d' m. d' \<in> set ds \<Longrightarrow> m \<in> set (W d') \<Longrightarrow> key m = d'"
  shows "filter (\<lambda>m. key m = d) (concat (map W ds)) = (if d \<in> set ds then W d else [])"
  using assms
proof (induction ds)
  case Nil
  then show ?case by simp
next
  case (Cons x ds)
  have rest: "filter (\<lambda>m. key m = d) (concat (map W ds)) = (if d \<in> set ds then W d else [])"
    using Cons by simp
  have own: "filter (\<lambda>m. key m = d) (W x) = (if d = x then W x else [])"
    using Cons.prems(2) [of x] by (auto simp: filter_empty_conv intro: filter_True)
  from Cons.prems(1) have "x \<notin> set ds"
    by simp
  with rest own show ?case
    by auto
qed

lemma group_by_keys_set:
  assumes "reorders order"
  shows "set (order (first_seen (map key df))) = key ` set df"
    and "distinct (order (first_seen (map key df)))"
  using assms by (simp_all add: reorders_set reorders_distinct set_first_seen distinct_first_seen)

lemma sort_distinct_set:
  assumes "distinct xs"
  shows "sort xs = sorted_list_of_set (set xs)"
  using assms by (simp add: sorted_list_of_set_sort_remdups distinct_remdups_id)

lemma quantity_counts_form:
  "quantity_counts e df_claims =
     map (\<lambda>k. \<lparr> q_ndc = fst k, q_quantity = snd k,
                 q_count = quantity_count (fst k) (snd k) df_claims \<rparr>)
       (gb_qty_count e (first_seen (map (\<lambda>c. (c_ndc c, c_quantity c)) df_claims)))"
  by (simp add: quantity_counts_def group_by_def quantity_count_def split_beta comp_def)

lemma counts_of_drug:
  assumes "reorders (gb_qty_count e)"
  shows "set (filter (\<lambda>r. q_ndc r = d) (quantity_counts e df_claims))
         = (\<lambda>q. \<lparr> q_ndc = d, q_quantity = q, q_count = quantity_count d q df_claims \<rparr>)
             ` drug_quantities d df_claims"
    and "distinct (map q_quantity (filter (\<lambda>r. q_ndc r = d) (quantity_counts e df_claims)))"
    and "q_ndc ` set (quantity_counts e df_claims) = c_ndc ` set df_claims"
proof -
  let ?K = "gb_qty_count e (first_seen (map (\<lambda>c. (c_ndc c, c_quantity c)) df_claims))"
  let ?C = "\<lambda>k. \<lparr> q_ndc = fst k, q_quantity = snd k,
                 q_count = quantity_count (fst k) (snd k) df_claims \<rparr>"
  have K: "set ?K = (\<lambda>c. (c_ndc c, c_quantity c)) ` set df_claims" and dK: "distinct ?K"
    using group_by_keys_set [OF assms] by blast+
  have g: "filter (\<lambda>r. q_ndc r = d) (quantity_counts e df_claims)
           = map ?C (filter (\<lambda>k. fst k = d) ?K)"
    by (simp add: quantity_counts_form filter_map comp_def)
  show "set (filter (\<lambda>r. q_ndc r = d) (quantity_counts e df_claims))
         = (\<lambda>q. \<lparr> q_ndc = d, q_quantity = q, q_count = quantity_count d q df_claims \<rparr>)
             ` drug_quantities d df_claims"
    unfolding g by (auto simp: K drug_quantities_def image_iff)
  have "distinct (map snd (filter (\<lambda>k. fst k = d) ?K))"
    using dK by (auto simp: distinct_map inj_on_def)
  then show "distinct (map q_quantity (filter (\<lambda>r. q_ndc r = d) (quantity_counts e df_claims)))"
    unfolding g by (simp add: comp_def)
  show "q_ndc ` set (quantity_counts e df_claims) = c_ndc ` set df_claims"
    by (simp add: quantity_counts_form image_image K)
qed

lemma max_count_iff:
  assumes "q \<in> drug_quantities d df_claims"
  shows "(quantity_count d q df_claims
            = Max ((\<lambda>q. quantity_count d q df_claims) ` drug_quantities d df_claims))
         = (\<forall>q' \<in> drug_quantities d df_claims.
              quantity_count d q' df_claims \<le> quantity_count d q df_claims)"
proof -
  have "finite ((\<lambda>q. quantity_count d q df_claims) ` drug_quantities d df_claims)"
    by (simp add: drug_quantities_def)
  moreover have "(\<lambda>q. quantity_count d q df_claims) ` drug_quantities d df_claims \<noteq> {}"
    using assms by auto
  ultimately show ?thesis
    using assms by (auto simp: eq_commute [of "quantity_count d q df_claims"] Max_eq_iff)
qed

lemma mode_quantities_nonempty:
  assumes "d \<in> c_ndc ` set df_claims"
  shows "mode_quantities d df_claims \<noteq> {}"
proof -
  let ?cnt = "\<lambda>q. quantity_count d q df_claims"
  let ?DQ = "drug_quantities d df_claims"
  have "finite (?cnt ` ?DQ)" and "?cnt ` ?DQ \<noteq> {}"
    using assms by (auto simp: drug_quantities_def)
  then have "Max (?cnt ` ?DQ) \<in> ?cnt ` ?DQ"
    by (rule Max_in)
  then obtain q where "q \<in> ?DQ" and "?cnt q = Max (?cnt ` ?DQ)"
    by auto
  then have "q \<in> mode_quantities d df_claims"
    by (simp add: mode_quantities_def max_count_iff)
  then show ?thesis
    by blast
qed

lemma modes_of_drug:
  assumes "reorders (gb_qty_count e)"
  shows "sort (drop_nulls (map mode_qty
           (with_mode_qty (filter (\<lambda>r. q_ndc r = d) (quantity_counts e df_claims)))))
         = sorted_list_of_set (mode_quantities d df_claims)"
proof -
  let ?g = "filter (\<lambda>r. q_ndc r = d) (quantity_counts e df_claims)"
  let ?cnt = "\<lambda>q. quantity_count d q df_claims"
  let ?DQ = "drug_quantities d df_claims"
  let ?R = "\<lambda>q. \<lparr> q_ndc = d, q_quantity = q, q_count = ?cnt q \<rparr>"
  let ?L = "map q_quantity (filter (\<lambda>r. q_count r = Max (set (map q_count ?g))) ?g)"
  have g: "set ?g = ?R ` ?DQ"
    by (rule counts_of_drug(1) [OF assms])
  then have counts: "set (map q_count ?g) = ?cnt ` ?DQ"
    by (simp add: image_image)
  have "distinct (map q_quantity ?g)"
    by (rule counts_of_drug(2) [OF assms])
  then have "distinct ?L"
    by (rule distinct_map_filter)
  then have "sort ?L = sorted_list_of_set (set ?L)"
    by (rule sort_distinct_set)
  moreover have "set ?L = mode_quantities d df_claims"
  proof -
    have "set ?L = q_quantity ` {r \<in> set ?g. q_count r = Max (set (map q_count ?g))}"
      by (simp only: set_map set_filter)
    also have "\<dots> = q_quantity ` {r \<in> ?R ` ?DQ. q_count r = Max (?cnt ` ?DQ)}"
      by (simp only: counts g)
    also have "\<dots> = {q \<in> ?DQ. ?cnt q = Max (?cnt ` ?DQ)}"
      by force
    also have "\<dots> = mode_quantities d df_claims"
      by (auto simp: mode_quantities_def max_count_iff)
    finally show ?thesis .
  qed
  ultimately show ?thesis
    by (simp only: drop_nulls_modes)
qed

lemma finite_mode_quantities: "finite (mode_quantities d df_claims)"
  by (simp add: mode_quantities_def drug_quantities_def)

lemma quantity_modes_rows:
  assumes "engine_ok e"
  shows "sort_key i_ndc (filter (\<lambda>r. 0 < length (most_prescribed_quantity r))
           (map (\<lambda>kg. \<lparr> i_ndc = fst kg,
                         most_prescribed_quantity = sort (drop_nulls (map mode_qty (snd kg))) \<rparr>)
              (group_by (gb_qty_modes e) q_ndc
                 (concat (map (\<lambda>kg. with_mode_qty (snd kg))
                    (group_by (gb_qty_groups e) q_ndc (quantity_counts e df_claims)))))))
     = map (\<lambda>d. \<lparr> i_ndc = d,
                 most_prescribed_quantity = sorted_list_of_set (mode_quantities d df_claims) \<rparr>)
       (sorted_list_of_set (c_ndc ` set df_claims))"
proof -
  from assms have o1: "reorders (gb_qty_count e)" and o2: "reorders (gb_qty_groups e)"
    and o3: "reorders (gb_qty_modes e)"
    by (simp_all add: engine_ok_def)
  let ?counts = "quantity_counts e df_claims"
  let ?D2 = "gb_qty_groups e (first_seen (map q_ndc ?counts))"
  let ?D = "c_ndc ` set df_claims"
  let ?W = "\<lambda>d. with_mode_qty (filter (\<lambda>r. q_ndc r = d) ?counts)"
  let ?modes = "concat (map ?W ?D2)"
  let ?row = "\<lambda>kg. \<lparr> i_ndc = fst kg,
                       most_prescribed_quantity = sort (drop_nulls (map mode_qty (snd kg))) \<rparr>"
  let ?P = "\<lambda>r. 0 < length (most_prescribed_quantity r)"
  let ?R = "\<lambda>d. \<lparr> i_ndc = d,
                 most_prescribed_quantity = sorted_list_of_set (mode_quantities d df_claims) \<rparr>"
  have modes: "concat (map (\<lambda>kg. with_mode_qty (snd kg)) (group_by (gb_qty_groups e) q_ndc ?counts))
               = ?modes"
    by (simp add: group_by_def comp_def)
  have D2: "set ?D2 = ?D" and dD2: "distinct ?D2"
    using group_by_keys_set [OF o2, of q_ndc ?counts] counts_of_drug(3) [OF o1, of df_claims]
    by simp_all
  have keyW: "q_ndc m = d'" if "m \<in> set (?W d')" for m d'
    using that by (auto simp: with_mode_qty_def)
  have group: "filter (\<lambda>m. q_ndc m = d) ?modes = (if d \<in> ?D then ?W d else [])" for d
    using filter_concat_groups [OF dD2, of ?W q_ndc d] keyW by (simp add: D2)
  have nonempty: "?W d \<noteq> []" if "d \<in> ?D" for d
  proof -
    from that have "d \<in> q_ndc ` set ?counts"
      by (simp add: counts_of_drug(3) [OF o1])
    then have "filter (\<lambda>r. q_ndc r = d) ?counts \<noteq> []"
      by (auto simp: filter_empty_conv)
    then show ?thesis
      by (simp add: with_mode_qty_def)
  qed
  have keys: "q_ndc ` set ?modes = ?D"
  proof
    show "q_ndc ` set ?modes \<subseteq> ?D"
      using keyW D2 by auto
    show "?D \<subseteq> q_ndc ` set ?modes"
    proof
      fix d assume d: "d \<in> ?D"
      with nonempty obtain m where m: "m \<in> set (?W d)"
        by (cases "?W d") auto
      with d D2 have "m \<in> set ?modes"
        by auto
      with keyW [OF m] show "d \<in> q_ndc ` set ?modes"
        by auto
    qed
  qed
  have row: "?row (d, filter (\<lambda>m. q_ndc m = d) ?modes) = ?R d" if "d \<in> ?D" for d
    using that by (simp add: group modes_of_drug [OF o1])
  have kept: "sorted_list_of_set (mode_quantities d df_claims) \<noteq> []" if "d \<in> ?D" for d
    using mode_quantities_nonempty [OF that] finite_mode_quantities [of d df_claims]
    by simp
  have "sort_key i_ndc (filter ?P (map ?row (group_by (gb_qty_modes e) q_ndc
            (concat (map (\<lambda>kg. with_mode_qty (snd kg))
               (group_by (gb_qty_groups e) q_ndc ?counts))))))
        = sort_key i_ndc (filter ?P (map ?row (group_by (gb_qty_modes e) q_ndc ?modes)))"
    by (simp only: modes)
  also have "\<dots> = filter ?P (sort_key i_ndc (map ?row (group_by (gb_qty_modes e) q_ndc ?modes)))"
    by (simp only: filter_sort)
  also have "sort_key i_ndc (map ?row (group_by (gb_qty_modes e) q_ndc ?modes))
        = map (\<lambda>k. ?row (k, filter (\<lambda>m. q_ndc m = k) ?modes)) (sorted_list_of_set (q_ndc ` set ?modes))"
    by (rule grouped_sorted [OF o3]) simp
  also have "\<dots> = map ?R (sorted_list_of_set ?D)"
    unfolding keys
  proof (rule map_cong)
    fix d assume "d \<in> set (sorted_list_of_set ?D)"
    then have "d \<in> ?D"
      by simp
    then show "?row (d, filter (\<lambda>m. q_ndc m = d) ?modes) = ?R d"
      by (rule row)
  qed simp
  also have "filter ?P (map ?R (sorted_list_of_set ?D)) = map ?R (sorted_list_of_set ?D)"
    by (rule filter_True) (use kept in auto)
  finally show ?thesis .
qed

lemma quantity_counts_empty:
  assumes "engine_ok e"
  shows "quantity_counts e df_claims = [] \<longleftrightarrow> df_claims = []"
proof -
  from assms have "reorders (gb_qty_count e)"
    by (simp add: engine_ok_def)
  then have "q_ndc ` set (quantity_counts e df_claims) = c_ndc ` set df_claims"
    by (rule counts_of_drug(3))
  then have "q_ndc ` set (quantity_counts e df_claims) = {} \<longleftrightarrow> c_ndc ` set df_claims = {}"
    by simp
  then show ?thesis
    by simp
qed

lemma compute_quantity_insights_rows:
  assumes "engine_ok e"
  shows "compute_quantity_insights e df_claims =
     (if df_claims = [] then Inl ComputeError
      else Inr (map (\<lambda>d. \<lparr> i_ndc = d,
                  most_prescribed_quantity = sorted_list_of_set (mode_quantities d df_claims) \<rparr>)
             (sorted_list_of_set (c_ndc ` set df_claims))))"
proof (cases "df_claims = []")
  case True
  then have "quantity_counts e df_claims = []"
    by (simp add: quantity_counts_empty [OF assms])
  with True show ?thesis
    by (simp add: compute_quantity_insights_def map_groups_def)
next
  case False
  then have "quantity_counts e df_claims \<noteq> []"
    by (simp add: quantity_counts_empty [OF assms])
  then have "compute_quantity_insights e df_claims =
     Inr (sort_key i_ndc (filter (\<lambda>r. 0 < length (most_prescribed_quantity r))
           (map (\<lambda>kg. \<lparr> i_ndc = fst kg,
                         most_prescribed_quantity = sort (drop_nulls (map mode_qty (snd kg))) \<rparr>)
              (group_by (gb_qty_modes e) q_ndc
                 (concat (map (\<lambda>kg. with_mode_qty (snd kg))
                    (group_by (gb_qty_groups e) q_ndc (quantity_counts e df_claims))))))))"
    by (simp only: compute_quantity_insights_def map_groups_def Let_def if_False sum.case)
  with False show ?thesis
    by (simp only: quantity_modes_rows [OF assms] if_False)
qed

lemma drug_quantities_iff:
  "q \<in> drug_quantities d df_claims \<longleftrightarrow> 0 < quantity_count d q df_claims"
  by (auto simp: drug_quantities_def quantity_count_def filter_empty_conv)

lemma mode_quantities_iff:
  "q \<in> mode_quantities d df_claims \<longleftrightarrow>
     0 < quantity_count d q df_claims
     \<and> (\<forall>q'. quantity_count d q' df_claims \<le> quantity_count d q df_claims)"
proof -
  have "quantity_count d q' df_claims \<le> quantity_count d q df_claims"
    if "q' \<notin> drug_quantities d df_claims" for q'
    using that by (simp add: drug_quantities_iff)
  then show ?thesis
    unfolding mode_quantities_def by (auto simp: drug_quantities_iff)
qed



lemma chain_agg_form:
  "chain_agg e df_with_chain =
     filter (\<lambda>a. g_avg_price a \<noteq> None)
       (map (\<lambda>k. chain_agg_row e (k, filter (\<lambda>row. (c_ndc (fst row), snd row) = k) df_with_chain))
         (gb_chain e (first_seen (map (\<lambda>row. (c_ndc (fst row), snd row)) df_with_chain))))"
  by (simp add: chain_agg_def group_by_def comp_def)

















text \<open>The mark of a claim has no part in the aggregates.\<close>

lemma unmark_fields:
  "c_npi (unmark c) = c_npi c" "c_ndc (unmark c) = c_ndc c"
  "c_price (unmark c) = c_price c" "c_quantity (unmark c) = c_quantity c"
  by (simp_all add: unmark_def)

lemma left_join_chain_unmark:
  "left_join_chain (map unmark df_claims) df_pharmacies
   = map (\<lambda>row. (unmark (fst row), snd row)) (left_join_chain df_claims df_pharmacies)"
proof (induction df_claims)
  case Nil
  then show ?case by (simp add: left_join_chain_def)
next
  case (Cons c df_claims)
  then show ?case
    by (simp add: left_join_chain_def unmark_fields split: list.split)
qed

lemma chain_agg_unmark:
  "chain_agg e (map (\<lambda>row. (unmark (fst row), snd row)) df_with_chain) = chain_agg e df_with_chain"
proof -
  let ?S = "\<lambda>row. (unmark (fst row), snd row)"
  have keys: "map (\<lambda>row. (c_ndc (fst row), snd row)) (map ?S df_with_chain)
              = map (\<lambda>row. (c_ndc (fst row), snd row)) df_with_chain"
    by (simp add: comp_def unmark_fields)
  have groups: "filter (\<lambda>row. (c_ndc (fst row), snd row) = k) (map ?S df_with_chain)
                = map ?S (filter (\<lambda>row. (c_ndc (fst row), snd row) = k) df_with_chain)" for k
    by (simp add: filter_map comp_def unmark_fields)
  have row: "chain_agg_row e (k, map ?S g) = chain_agg_row e (k, g)" for k g
    by (simp add: chain_agg_row_def comp_def unmark_fields split: prod.split)
  show ?thesis
    by (simp only: chain_agg_form keys groups row)
qed

lemma compute_chain_recommendations_unmark:
  "compute_chain_recommendations e (map unmark df_claims) df_pharmacies
   = compute_chain_recommendations e df_claims df_pharmacies"
  by (simp only: compute_chain_recommendations_def Let_def left_join_chain_unmark chain_agg_unmark)

lemma quantity_counts_unmark:
  "quantity_counts e (map unmark df_claims) = quantity_counts e df_claims"
proof -
  have keys: "map (\<lambda>c. (c_ndc c, c_quantity c)) (map unmark df_claims)
              = map (\<lambda>c. (c_ndc c, c_quantity c)) df_claims"
    by (simp add: comp_def unmark_fields)
  have counts: "quantity_count d q (map unmark df_claims) = quantity_count d q df_claims" for d q
    by (simp add: quantity_count_def filter_map comp_def unmark_fields)
  show ?thesis
    by (simp only: quantity_counts_form keys counts)
qed

lemma compute_quantity_insights_unmark:
  "compute_quantity_insights e (map unmark df_claims) = compute_quantity_insights e df_claims"
  by (simp only: compute_quantity_insights_def quantity_counts_unmark)

lemma compute_npi_ndc_metrics_unmark:
  assumes "engine_ok e"
  shows "map without_reverted (compute_npi_ndc_metrics e (map unmark df_claims))
         = map without_reverted (compute_npi_ndc_metrics e df_claims)"
proof -
  have keys: "(\<lambda>c. (c_npi c, c_ndc c)) ` unmark ` set df_claims
              = (\<lambda>c. (c_npi c, c_ndc c)) ` set df_claims"
    by (simp add: image_image unmark_fields)
  have groups: "filter (\<lambda>c. (c_npi c, c_ndc c) = k) (map unmark df_claims)
                = map unmark (filter (\<lambda>c. (c_npi c, c_ndc c) = k) df_claims)" for k
    by (simp add: filter_map comp_def unmark_fields)
  have row: "without_reverted (metrics_select e (metrics_agg (k, map unmark g)))
             = without_reverted (metrics_select e (metrics_agg (k, g)))" for k g
    by (simp add: without_reverted_def metrics_select_def metrics_agg_def Let_def comp_def
        unmark_fields split: prod.split)
  show ?thesis
    by (simp add: compute_npi_ndc_metrics_rows [OF assms] keys groups row comp_def)
qed

lemma chain_agg_sums:
  assumes "a \<in> set (chain_agg e df_with_chain)"
  shows "g_total_price a
           = sum_list (map (\<lambda>row. c_price (fst row)) (chain_group (g_ndc a) (g_chain a) df_with_chain))"
    and "g_total_quantity a = chain_quantity (g_ndc a) (g_chain a) df_with_chain"
proof -
  from assms obtain k where
    a: "a = chain_agg_row e (k, filter (\<lambda>row. (c_ndc (fst row), snd row) = k) df_with_chain)"
    by (auto simp: chain_agg_form)
  obtain d ch where k: "k = (d, ch)"
    by (cases k)
  show "g_total_price a
           = sum_list (map (\<lambda>row. c_price (fst row)) (chain_group (g_ndc a) (g_chain a) df_with_chain))"
    and "g_total_quantity a = chain_quantity (g_ndc a) (g_chain a) df_with_chain"
    unfolding a k by (simp_all add: chain_agg_row_def chain_quantity_def chain_group_def Let_def)
qed

lemma quantity_counts_count:
  assumes "r \<in> set (quantity_counts e df_claims)"
  shows "q_count r = quantity_count (q_ndc r) (q_quantity r) df_claims"
  using assms by (auto simp: quantity_counts_form)

text \<open>Facts about the loader: \<open>unique_first\<close> is a \<^verbatim>\<open>unique\<close>, and a file of one row is read as it is.\<close>

lemma set_unique_first: "set (unique_first key df) \<subseteq> set df"
  by (induction df) auto

lemma keys_unique_first: "key ` set (unique_first key df) = key ` set df"
proof (induction df)
  case Nil
  show ?case by simp
next
  case (Cons x xs)
  have "key ` {y \<in> set (unique_first key xs). key y \<noteq> key x}
        = key ` set (unique_first key xs) - {key x}"
    by auto
  with Cons show ?case by auto
qed

lemma distinct_unique_first: "distinct (map key (unique_first key df))"
  by (induction df) (auto simp: distinct_map_filter)

lemma uniques_unique_first: "uniques key (unique_first key)"
  by (simp add: uniques_def set_unique_first keys_unique_first distinct_unique_first)

lemma reader_ok_first: "reader_ok reader_first"
  by (simp add: reader_ok_def reader_first_def uniques_unique_first)

lemma distinct_set_singleton:
  assumes "distinct xs" and "set xs = {x}"
  shows "xs = [x]"
proof (cases xs)
  case Nil
  with assms show ?thesis by simp
next
  case (Cons a as)
  with assms have "a = x" and "set as \<subseteq> {x}" and "x \<notin> set as"
    by auto
  then have "as = []" by (cases as) auto
  with Cons \<open>a = x\<close> show ?thesis by simp
qed

lemma uniques_singleton:
  assumes "uniques key u"
  shows "u [x] = [x]"
proof -
  from assms have "distinct (map key (u [x])) \<and> set (u [x]) \<subseteq> set [x]
      \<and> key ` set (u [x]) = key ` set [x]"
    unfolding uniques_def by (rule spec)
  then have d: "distinct (map key (u [x]))" and s: "set (u [x]) \<subseteq> {x}"
    and k: "key ` set (u [x]) = {key x}"
    by simp_all
  from k s have "set (u [x]) = {x}" by auto
  moreover from d have "distinct (u [x])" by (simp add: distinct_map)
  ultimately show ?thesis by (rule distinct_set_singleton [rotated])
qed

lemma load_events_one:
  assumes "uniques key u"
  shows "load_events u [Some [Some [x]]] = [x]"
  by (simp add: load_events_def uniques_singleton [OF assms])

lemma load_events_two:
  assumes "uniques key u"
  shows "load_events u [Some [Some [x], Some [y]]] = [x, y]"
  by (simp add: load_events_def uniques_singleton [OF assms])

lemma load_pharmacies_one:
  assumes "reader_ok rd"
  shows "load_pharmacies rd [Some [Some [x]]] = Inr [x]"
  using assms by (simp add: load_pharmacies_def reader_ok_def uniques_singleton [of p_npi])

lemma load_pharmacies_two:
  assumes "reader_ok rd"
  shows "load_pharmacies rd [Some [Some [x], Some [y]]] = Inr [x, y]"
  using assms by (simp add: load_pharmacies_def reader_ok_def uniques_singleton [of p_npi])

lemma run_pharmacy_analytics_metrics:
  assumes "engine_ok e"
    and "mark_reverted_claims (filter_to_pharmacy_dataset e df_claims df_pharmacies) df_reverts = df"
    and "df \<noteq> []"
  shows "\<exists>cs qs. run_pharmacy_analytics e df_claims df_reverts df_pharmacies
     = Inr (compute_npi_ndc_metrics e df, cs, qs)"
  using assms(2,3)
  by (simp add: run_pharmacy_analytics_def Let_def compute_chain_recommendations_rows
      compute_quantity_insights_rows [OF assms(1)])

lemma reorders_replicate:
  assumes "reorders f"
  shows "f (replicate n x) = replicate n x"
proof -
  from assms have m: "mset (f (replicate n x)) = mset (replicate n x)"
    by (simp add: reorders_def)
  then have "length (f (replicate n x)) = n"
    using mset_eq_length by fastforce
  moreover have "y = x" if "y \<in> set (f (replicate n x))" for y
    using that mset_eq_setD [OF m] by auto
  ultimately show ?thesis
    by (rule replicate_eqI)
qed

lemma reorders_same:
  assumes "reorders f"
  shows "f [x] = [x]" and "f [x, x] = [x, x]"
  using reorders_replicate [OF assms, of 1 x] reorders_replicate [OF assms, of 2 x]
  by (simp_all add: numeral_2_eq_2)

lemma metrics_one_group:
  assumes "engine_ok e" and "df \<noteq> []" and "\<forall>c \<in> set df. (c_npi c, c_ndc c) = k"
  shows "map (\<lambda>r. (fills r, reverted r)) (compute_npi_ndc_metrics e df)
         = [(length df, length (filter is_reverted df))]"
proof -
  from assms(2,3) have "(\<lambda>c. (c_npi c, c_ndc c)) ` set df = {k}"
    by (cases df) auto
  moreover from assms(3) have "filter (\<lambda>c. (c_npi c, c_ndc c) = k) df = df"
    by (simp add: filter_id_conv)
  ultimately have "compute_npi_ndc_metrics e df = [metrics_select e (metrics_agg (k, df))]"
    by (simp add: compute_npi_ndc_metrics_rows [OF assms(1)])
  then show ?thesis
    by (simp add: metrics_select_def metrics_agg_def Let_def split: prod.split)
qed

section \<open>Join exclusivity\<close>

text \<open>
  C5. A claim of the input is in the frame that \<open>filter_to_pharmacy_dataset\<close> returns
  exactly when its npi is the npi of some pharmacy row, and the function returns no row
  that was not in the input, whatever order the join returns its rows in. The function
  has no failing branch: a claim without a pharmacy is left out of the returned list.
\<close>

theorem filter_to_pharmacy_dataset_iff:
  assumes "engine_ok e"
  shows "(c \<in> set df_claims \<longrightarrow>
      (c \<in> set (filter_to_pharmacy_dataset e df_claims df_pharmacies)
         \<longleftrightarrow> c_npi c \<in> p_npi ` set df_pharmacies))
   \<and> set (filter_to_pharmacy_dataset e df_claims df_pharmacies) \<subseteq> set df_claims"
proof -
  from assms have "reorders (join_order e)"
    by (simp add: engine_ok_def)
  then have "set (join_order e rows) = set rows" for rows
    by (rule reorders_set)
  then show ?thesis
    by (auto simp: filter_to_pharmacy_dataset_def Let_def)
qed

theorem filter_to_pharmacy_dataset_iff_witness:
  "engine_ok engine_rev
   \<and> ex_c3 \<in> set [ex_c1, ex_c2, ex_c3]
   \<and> ex_c3 \<notin> set (filter_to_pharmacy_dataset engine_rev [ex_c1, ex_c2, ex_c3] ex_pharmacies)
   \<and> c_npi ex_c3 \<notin> p_npi ` set ex_pharmacies
   \<and> ex_c1 \<in> set (filter_to_pharmacy_dataset engine_rev [ex_c1, ex_c2, ex_c3] ex_pharmacies)
   \<and> filter_to_pharmacy_dataset engine_rev [ex_c1, ex_c2, ex_c3] ex_pharmacies = [ex_c2, ex_c1]"
proof -
  note iff3 = filter_to_pharmacy_dataset_iff [OF engine_ok_rev, of ex_c3 "[ex_c1, ex_c2, ex_c3]"
      ex_pharmacies]
  note iff1 = filter_to_pharmacy_dataset_iff [OF engine_ok_rev, of ex_c1 "[ex_c1, ex_c2, ex_c3]"
      ex_pharmacies]
  have npi3: "c_npi ex_c3 \<notin> p_npi ` set ex_pharmacies"
    and npi1: "c_npi ex_c1 \<in> p_npi ` set ex_pharmacies"
    by (simp_all add: ex_pharmacies_def ex_c1_def ex_c3_def)
  have joined: "filter_to_pharmacy_dataset engine_rev [ex_c1, ex_c2, ex_c3] ex_pharmacies
      = [ex_c2, ex_c1]"
    by code_simp
  from iff3 npi3
  have out3: "ex_c3 \<notin> set (filter_to_pharmacy_dataset engine_rev [ex_c1, ex_c2, ex_c3] ex_pharmacies)"
    by simp
  from iff1 npi1
  have "ex_c1 \<in> set (filter_to_pharmacy_dataset engine_rev [ex_c1, ex_c2, ex_c3] ex_pharmacies)"
    by simp
  with out3 npi3 joined engine_ok_rev show ?thesis
    by simp
qed

section \<open>Revert correctness\<close>

text \<open>
  C6. \<open>mark_reverted_claims\<close> returns one enriched claim for each claim of the input, in
  the input's order and with the claim's own fields as they were; an enriched claim is
  marked reverted exactly when some revert record names its id; and two revert frames
  that name the same set of claim ids give the same result, so a second revert of a
  claim changes nothing.
\<close>

theorem mark_reverted_claims_correct:
  "length (mark_reverted_claims df_claims df_reverts) = length df_claims
   \<and> map ClaimRecord.truncate (mark_reverted_claims df_claims df_reverts) = df_claims
   \<and> (\<forall>c \<in> set (mark_reverted_claims df_claims df_reverts).
         is_reverted c \<longleftrightarrow> (\<exists>r \<in> set df_reverts. r_claim_id r = c_id c))
   \<and> (r_claim_id ` set df_reverts = r_claim_id ` set df_reverts' \<longrightarrow>
         mark_reverted_claims df_claims df_reverts = mark_reverted_claims df_claims df_reverts')
   \<and> mark_reverted_claims df_claims (r # r # df_reverts)
         = mark_reverted_claims df_claims (r # df_reverts)"
proof -
  have same_fields: "map ClaimRecord.truncate (mark_reverted_claims df_claims df_reverts) = df_claims"
    by (simp add: mark_reverted_claims_def ClaimRecord.truncate_def comp_def map_idI)
  have membership: "\<forall>c \<in> set (mark_reverted_claims df_claims df_reverts).
      is_reverted c \<longleftrightarrow> (\<exists>r \<in> set df_reverts. r_claim_id r = c_id c)"
    by (force simp: mark_reverted_claims_def image_iff)
  show ?thesis
    using same_fields membership by (simp add: mark_reverted_claims_def)
qed

theorem mark_reverted_claims_correct_witness:
  "mark_reverted_claims [ex_c1, ex_c2] [ex_r1, ex_r1]
     = [ClaimRecord.extend ex_c1 (EnrichedClaim.fields True),
        ClaimRecord.extend ex_c2 (EnrichedClaim.fields False)]
   \<and> (\<exists>r \<in> set [ex_r1, ex_r1]. r_claim_id r = c_id ex_c1)
   \<and> \<not> (\<exists>r \<in> set [ex_r1, ex_r1]. r_claim_id r = c_id ex_c2)
   \<and> r_claim_id ` set [ex_r1, ex_r1] = r_claim_id ` set [ex_r1]
   \<and> mark_reverted_claims [ex_c1, ex_c2] [ex_r1, ex_r1] = mark_reverted_claims [ex_c1, ex_c2] [ex_r1]"
  using mark_reverted_claims_correct [of "[ex_c1, ex_c2]" "[ex_r1, ex_r1]" "[ex_r1]" ex_r1]
  by (simp add: mark_reverted_claims_def ex_c1_def ex_c2_def ex_r1_def
      ClaimRecord.extend_def EnrichedClaim.fields_def)

section \<open>Metrics conservation\<close>

text \<open>
  C2, as the code has it. The report has one row for each (npi, ndc) pair that occurs
  among the claims, and the rows are strictly ascending in the pair of strings. In each
  row \<open>fills\<close> is the number of claims of the group, \<open>reverted\<close> the number of those
  marked reverted (so at most \<open>fills\<close>), \<open>total_price\<close> the rounded sum of their
  prices, and \<open>avg_price\<close> is 0 when the group's quantities add up to 0. The converse
  of the last part does not hold: see \<open>metrics_avg_price_zero_counterexample\<close>.
\<close>

theorem compute_npi_ndc_metrics_conservation:
  assumes "engine_ok e"
  shows "sorted (map (\<lambda>r. (m_npi r, m_ndc r)) (compute_npi_ndc_metrics e df_claims))
   \<and> distinct (map (\<lambda>r. (m_npi r, m_ndc r)) (compute_npi_ndc_metrics e df_claims))
   \<and> (\<lambda>r. (m_npi r, m_ndc r)) ` set (compute_npi_ndc_metrics e df_claims)
        = (\<lambda>c. (c_npi c, c_ndc c)) ` set df_claims
   \<and> (\<forall>r \<in> set (compute_npi_ndc_metrics e df_claims).
         fills r = length (claims_of (m_npi r) (m_ndc r) df_claims)
       \<and> reverted r = length (filter is_reverted (claims_of (m_npi r) (m_ndc r) df_claims))
       \<and> reverted r \<le> fills r
       \<and> total_price r = round2 e (sum_list (map c_price (claims_of (m_npi r) (m_ndc r) df_claims)))
       \<and> (sum_list (map c_quantity (claims_of (m_npi r) (m_ndc r) df_claims)) = 0
            \<longrightarrow> avg_price r = 0))"
proof -
  let ?out = "compute_npi_ndc_metrics e df_claims"
  let ?K = "(\<lambda>c. (c_npi c, c_ndc c)) ` set df_claims"
  have keys: "map (\<lambda>r. (m_npi r, m_ndc r)) ?out = sorted_list_of_set ?K"
    by (rule compute_npi_ndc_metrics_keys [OF assms])
  have "sorted (map (\<lambda>r. (m_npi r, m_ndc r)) ?out)"
    and "distinct (map (\<lambda>r. (m_npi r, m_ndc r)) ?out)"
    by (simp_all add: keys)
  moreover have "(\<lambda>r. (m_npi r, m_ndc r)) ` set ?out = ?K"
    using arg_cong [OF keys, of set] by simp
  moreover have "\<forall>r \<in> set ?out.
         fills r = length (claims_of (m_npi r) (m_ndc r) df_claims)
       \<and> reverted r = length (filter is_reverted (claims_of (m_npi r) (m_ndc r) df_claims))
       \<and> reverted r \<le> fills r
       \<and> total_price r = round2 e (sum_list (map c_price (claims_of (m_npi r) (m_ndc r) df_claims)))
       \<and> (sum_list (map c_quantity (claims_of (m_npi r) (m_ndc r) df_claims)) = 0
            \<longrightarrow> avg_price r = 0)"
  proof
    fix r assume "r \<in> set ?out"
    from compute_npi_ndc_metrics_row [OF assms this]
    obtain g where g: "g = claims_of (m_npi r) (m_ndc r) df_claims"
      and r: "r = metrics_select e (metrics_agg ((m_npi r, m_ndc r), g))"
      by simp
    have "fills r = length g" "reverted r = length (filter is_reverted g)"
      "total_price r = round2 e (sum_list (map c_price g))"
      "sum_list (map c_quantity g) = 0 \<longrightarrow> avg_price r = 0"
      by (subst r, simp add: metrics_select_def metrics_agg_def Let_def)+
    then show "fills r = length (claims_of (m_npi r) (m_ndc r) df_claims)
       \<and> reverted r = length (filter is_reverted (claims_of (m_npi r) (m_ndc r) df_claims))
       \<and> reverted r \<le> fills r
       \<and> total_price r = round2 e (sum_list (map c_price (claims_of (m_npi r) (m_ndc r) df_claims)))
       \<and> (sum_list (map c_quantity (claims_of (m_npi r) (m_ndc r) df_claims)) = 0
            \<longrightarrow> avg_price r = 0)"
      by (simp add: g)
  qed
  ultimately show ?thesis by blast
qed

theorem compute_npi_ndc_metrics_conservation_witness:
  "engine_ok engine_rev
   \<and> compute_npi_ndc_metrics engine_rev (ex_zero # ex_enriched)
       = [\<lparr> m_npi = ''1'', m_ndc = ''d1'', fills = 1, reverted = 1, avg_price = 5, total_price = 10 \<rparr>,
          \<lparr> m_npi = ''2'', m_ndc = ''d1'', fills = 1, reverted = 0, avg_price = 3, total_price = 9 \<rparr>,
          \<lparr> m_npi = ''2'', m_ndc = ''d2'', fills = 1, reverted = 0, avg_price = 0, total_price = 7 \<rparr>]
   \<and> sorted (map (\<lambda>r. (m_npi r, m_ndc r)) (compute_npi_ndc_metrics engine_rev (ex_zero # ex_enriched)))
   \<and> claims_of ''2'' ''d2'' (ex_zero # ex_enriched) = [ex_zero]
   \<and> sum_list (map c_quantity (claims_of ''2'' ''d2'' (ex_zero # ex_enriched))) = 0"
proof -
  note conservation =
    compute_npi_ndc_metrics_conservation [OF engine_ok_rev, of "ex_zero # ex_enriched"]
  have "compute_npi_ndc_metrics engine_rev (ex_zero # ex_enriched)
       = [\<lparr> m_npi = ''1'', m_ndc = ''d1'', fills = 1, reverted = 1, avg_price = 5, total_price = 10 \<rparr>,
          \<lparr> m_npi = ''2'', m_ndc = ''d1'', fills = 1, reverted = 0, avg_price = 3, total_price = 9 \<rparr>,
          \<lparr> m_npi = ''2'', m_ndc = ''d2'', fills = 1, reverted = 0, avg_price = 0, total_price = 7 \<rparr>]"
    by code_simp
  moreover have "sorted (map (\<lambda>r. (m_npi r, m_ndc r))
      (compute_npi_ndc_metrics engine_rev (ex_zero # ex_enriched)))"
    by (rule conservation [THEN conjunct1])
  moreover have "claims_of ''2'' ''d2'' (ex_zero # ex_enriched) = [ex_zero]"
    by code_simp
  moreover have "sum_list (map c_quantity (claims_of ''2'' ''d2'' (ex_zero # ex_enriched))) = 0"
    by code_simp
  ultimately show ?thesis
    using engine_ok_rev by blast
qed

text \<open>
  The claim's equivalence fails from right to left: a group whose only claim has price
  0 and quantity 5 has the average price 0 although its total quantity is 5.
\<close>

theorem metrics_avg_price_zero_counterexample:
  "compute_npi_ndc_metrics engine_first [ex_free]
     = [\<lparr> m_npi = ''1'', m_ndc = ''d2'', fills = 1, reverted = 0, avg_price = 0, total_price = 0 \<rparr>]
   \<and> sum_list (map c_quantity (claims_of ''1'' ''d2'' [ex_free])) = 5
   \<and> \<not> (avg_price (hd (compute_npi_ndc_metrics engine_first [ex_free])) = 0
          \<longleftrightarrow> sum_list (map c_quantity (claims_of ''1'' ''d2'' [ex_free])) = 0)"
  by code_simp

section \<open>Average price from the unrounded sum\<close>

text \<open>
  C7. Every (npi, ndc) group of the claims has a row, and in every row \<open>avg_price\<close> is
  the rounded quotient of the unrounded sum of the group's prices by the sum of its
  quantities when that sum is positive, and 0 otherwise.
\<close>

theorem compute_npi_ndc_metrics_avg_price:
  assumes "engine_ok e"
  shows "(\<forall>c \<in> set df_claims. \<exists>r \<in> set (compute_npi_ndc_metrics e df_claims).
            m_npi r = c_npi c \<and> m_ndc r = c_ndc c)
   \<and> (\<forall>r \<in> set (compute_npi_ndc_metrics e df_claims).
         avg_price r =
           (if 0 < sum_list (map c_quantity (claims_of (m_npi r) (m_ndc r) df_claims))
            then round2 e (sum_list (map c_price (claims_of (m_npi r) (m_ndc r) df_claims))
                           / sum_list (map c_quantity (claims_of (m_npi r) (m_ndc r) df_claims)))
            else 0))"
proof (intro conjI ballI)
  fix c assume "c \<in> set df_claims"
  then have "(c_npi c, c_ndc c) \<in> set (map (\<lambda>r. (m_npi r, m_ndc r)) (compute_npi_ndc_metrics e df_claims))"
    by (simp add: compute_npi_ndc_metrics_keys [OF assms])
  then show "\<exists>r \<in> set (compute_npi_ndc_metrics e df_claims). m_npi r = c_npi c \<and> m_ndc r = c_ndc c"
    by auto
next
  fix r assume "r \<in> set (compute_npi_ndc_metrics e df_claims)"
  then show "avg_price r =
           (if 0 < sum_list (map c_quantity (claims_of (m_npi r) (m_ndc r) df_claims))
            then round2 e (sum_list (map c_price (claims_of (m_npi r) (m_ndc r) df_claims))
                           / sum_list (map c_quantity (claims_of (m_npi r) (m_ndc r) df_claims)))
            else 0)"
    by (subst (1) compute_npi_ndc_metrics_row [OF assms \<open>r \<in> _\<close>])
      (simp add: metrics_select_def metrics_agg_def Let_def)
qed

theorem compute_npi_ndc_metrics_avg_price_witness:
  "engine_ok engine_first
   \<and> compute_npi_ndc_metrics engine_first (ex_zero # ex_fine)
       = [\<lparr> m_npi = ''1'', m_ndc = ''d3'', fills = 2, reverted = 1,
            avg_price = 502 / 100, total_price = 1 \<rparr>,
          \<lparr> m_npi = ''2'', m_ndc = ''d2'', fills = 1, reverted = 0, avg_price = 0, total_price = 7 \<rparr>]
   \<and> (\<exists>r \<in> set (compute_npi_ndc_metrics engine_first (ex_zero # ex_fine)).
         m_npi r = c_npi ex_zero \<and> m_ndc r = c_ndc ex_zero)
   \<and> sum_list (map c_price (claims_of ''1'' ''d3'' (ex_zero # ex_fine))) = 1004 / 1000
   \<and> sum_list (map c_quantity (claims_of ''1'' ''d3'' (ex_zero # ex_fine))) = 2 / 10
   \<and> round2 engine_first ((1004 / 1000) / (2 / 10)) = 502 / 100
   \<and> round2 engine_first (round2 engine_first (1004 / 1000) / (2 / 10)) = 5"
proof -
  note avg = compute_npi_ndc_metrics_avg_price [OF engine_ok_first, of "ex_zero # ex_fine"]
  have "compute_npi_ndc_metrics engine_first (ex_zero # ex_fine)
       = [\<lparr> m_npi = ''1'', m_ndc = ''d3'', fills = 2, reverted = 1,
            avg_price = 502 / 100, total_price = 1 \<rparr>,
          \<lparr> m_npi = ''2'', m_ndc = ''d2'', fills = 1, reverted = 0, avg_price = 0, total_price = 7 \<rparr>]"
    by code_simp
  moreover have "\<exists>r \<in> set (compute_npi_ndc_metrics engine_first (ex_zero # ex_fine)).
         m_npi r = c_npi ex_zero \<and> m_ndc r = c_ndc ex_zero"
    using avg by simp
  moreover have "sum_list (map c_price (claims_of ''1'' ''d3'' (ex_zero # ex_fine))) = 1004 / 1000"
    by code_simp
  moreover have "sum_list (map c_quantity (claims_of ''1'' ''d3'' (ex_zero # ex_fine))) = 2 / 10"
    by code_simp
  moreover have "round2 engine_first ((1004 / 1000) / (2 / 10)) = 502 / 100"
    by code_simp
  moreover have "round2 engine_first (round2 engine_first (1004 / 1000) / (2 / 10)) = 5"
    by code_simp
  ultimately show ?thesis
    using engine_ok_first by blast
qed

section \<open>The two cheapest chains\<close>

text \<open>
  C1. \<open>compute_chain_recommendations\<close> raises nothing and returns one row for each drug
  that has an eligible candidate, that is a row of \<^verbatim>\<open>chain_agg\<close>. The chain list of a
  row holds the first two (or the only one) of the drug's candidates sorted by
  (avg_price, chain name): it has at most two entries, as many as there are candidates
  when there are fewer, it is ascending in the pair (avg_price, name), so cheapest first
  and by name where prices are equal, and every candidate left out is no smaller in
  that order than every entry listed.
\<close>

theorem compute_chain_recommendations_top2:
  "\<exists>rows. compute_chain_recommendations e df_claims df_pharmacies = Inr rows
     \<and> sorted (map d_ndc rows) \<and> distinct (map d_ndc rows)
     \<and> d_ndc ` set rows = {d. chain_candidates e df_claims df_pharmacies d \<noteq> []}
     \<and> (\<forall>r \<in> set rows.
          d_chain r = map entry_of (take 2 (sort_key (\<lambda>a. (g_avg_price a, g_chain a))
                        (chain_candidates e df_claims df_pharmacies (d_ndc r))))
        \<and> length (d_chain r) = min 2 (length (chain_candidates e df_claims df_pharmacies (d_ndc r)))
        \<and> sorted (map (\<lambda>en. (e_avg_price en, e_name en)) (d_chain r))
        \<and> sorted (map e_avg_price (d_chain r))
        \<and> (\<forall>a \<in> set (chain_candidates e df_claims df_pharmacies (d_ndc r)).
             entry_of a \<notin> set (d_chain r) \<longrightarrow>
             (\<forall>en \<in> set (d_chain r).
                (e_avg_price en, e_name en) \<le> (e_avg_price (entry_of a), e_name (entry_of a)))))"
proof -
  let ?agg = "chain_agg e (left_join_chain df_claims df_pharmacies)"
  let ?cands = "chain_candidates e df_claims df_pharmacies"
  let ?top = "\<lambda>d. map entry_of (take 2 (sort_key (\<lambda>a. (g_avg_price a, g_chain a)) (?cands d)))"
  let ?rows = "map (\<lambda>d. \<lparr> d_ndc = d, d_chain = ?top d \<rparr>) (sorted_list_of_set (g_ndc ` set ?agg))"
  have result: "compute_chain_recommendations e df_claims df_pharmacies = Inr ?rows"
    by (rule compute_chain_recommendations_rows)
  have keys: "map d_ndc ?rows = sorted_list_of_set (g_ndc ` set ?agg)"
    by (simp add: comp_def)
  have "sorted (map d_ndc ?rows)" and "distinct (map d_ndc ?rows)"
    unfolding keys by simp_all
  moreover have "d_ndc ` set ?rows = {d. ?cands d \<noteq> []}"
  proof -
    have "d_ndc ` set ?rows = g_ndc ` set ?agg"
      by (simp add: image_image)
    also have "\<dots> = {d. ?cands d \<noteq> []}"
      by (auto simp: chain_candidates_def filter_empty_conv)
    finally show ?thesis .
  qed
  moreover have "\<forall>r \<in> set ?rows.
          d_chain r = ?top (d_ndc r)
        \<and> length (d_chain r) = min 2 (length (?cands (d_ndc r)))
        \<and> sorted (map (\<lambda>en. (e_avg_price en, e_name en)) (d_chain r))
        \<and> sorted (map e_avg_price (d_chain r))
        \<and> (\<forall>a \<in> set (?cands (d_ndc r)).
             entry_of a \<notin> set (d_chain r) \<longrightarrow>
             (\<forall>en \<in> set (d_chain r).
                (e_avg_price en, e_name en) \<le> (e_avg_price (entry_of a), e_name (entry_of a))))"
  proof
    fix r assume "r \<in> set ?rows"
    then obtain d where r: "r = \<lparr> d_ndc = d, d_chain = ?top d \<rparr>"
      by auto
    have nonnull: "\<forall>a \<in> set (?cands d). g_avg_price a \<noteq> None"
      by (simp add: chain_candidates_avg_price)
    have "length (?top d) = min 2 (length (?cands d))"
      by simp
    moreover have pairs: "sorted (map (\<lambda>en. (e_avg_price en, e_name en)) (?top d))"
      by (rule top2_sorted [OF nonnull])
    moreover have "sorted (map e_avg_price (?top d))"
      by (rule sorted_fst_of_pairs [OF pairs])
    moreover have "\<forall>a \<in> set (?cands d). entry_of a \<notin> set (?top d) \<longrightarrow>
             (\<forall>en \<in> set (?top d).
                (e_avg_price en, e_name en) \<le> (e_avg_price (entry_of a), e_name (entry_of a)))"
      using top2_least [OF nonnull] by blast
    ultimately show "d_chain r = ?top (d_ndc r)
        \<and> length (d_chain r) = min 2 (length (?cands (d_ndc r)))
        \<and> sorted (map (\<lambda>en. (e_avg_price en, e_name en)) (d_chain r))
        \<and> sorted (map e_avg_price (d_chain r))
        \<and> (\<forall>a \<in> set (?cands (d_ndc r)).
             entry_of a \<notin> set (d_chain r) \<longrightarrow>
             (\<forall>en \<in> set (d_chain r).
                (e_avg_price en, e_name en) \<le> (e_avg_price (entry_of a), e_name (entry_of a))))"
      unfolding r by simp
  qed
  ultimately show ?thesis
    using result by blast
qed

theorem compute_chain_recommendations_top2_witness:
  "compute_chain_recommendations engine_rev ex_tie ex_pharmacies4
     = Inr [\<lparr> d_ndc = ''d1'',
              d_chain = [\<lparr> e_name = Some ''D'', e_avg_price = 1 \<rparr>,
                         \<lparr> e_name = Some ''B'', e_avg_price = 3 \<rparr>] \<rparr>]
   \<and> map entry_of (chain_candidates engine_rev ex_tie ex_pharmacies4 ''d1'')
       = [\<lparr> e_name = Some ''D'', e_avg_price = 1 \<rparr>, \<lparr> e_name = Some ''C'', e_avg_price = 3 \<rparr>,
          \<lparr> e_name = Some ''B'', e_avg_price = 3 \<rparr>, \<lparr> e_name = Some ''A'', e_avg_price = 5 \<rparr>]
   \<and> {d. chain_candidates engine_rev ex_tie ex_pharmacies4 d \<noteq> []} = {''d1''}"
proof -
  have result: "compute_chain_recommendations engine_rev ex_tie ex_pharmacies4
     = Inr [\<lparr> d_ndc = ''d1'',
              d_chain = [\<lparr> e_name = Some ''D'', e_avg_price = 1 \<rparr>,
                         \<lparr> e_name = Some ''B'', e_avg_price = 3 \<rparr>] \<rparr>]"
    by code_simp
  have candidates: "map entry_of (chain_candidates engine_rev ex_tie ex_pharmacies4 ''d1'')
       = [\<lparr> e_name = Some ''D'', e_avg_price = 1 \<rparr>, \<lparr> e_name = Some ''C'', e_avg_price = 3 \<rparr>,
          \<lparr> e_name = Some ''B'', e_avg_price = 3 \<rparr>, \<lparr> e_name = Some ''A'', e_avg_price = 5 \<rparr>]"
    by code_simp
  from compute_chain_recommendations_top2 [of engine_rev ex_tie ex_pharmacies4]
  obtain rows where "compute_chain_recommendations engine_rev ex_tie ex_pharmacies4 = Inr rows"
    and "d_ndc ` set rows = {d. chain_candidates engine_rev ex_tie ex_pharmacies4 d \<noteq> []}"
    by blast
  with result have "{d. chain_candidates engine_rev ex_tie ex_pharmacies4 d \<noteq> []} = {''d1''}"
    by auto
  with result candidates show ?thesis
    by blast
qed

section \<open>Chains without quantity\<close>

text \<open>
  C8. \<open>compute_chain_recommendations\<close> raises nothing. A (ndc, chain) group whose
  quantities add up to 0 gets a null average price, is no row of \<^verbatim>\<open>chain_agg\<close>, and its
  chain is no entry of the drug's recommendation list. Every row that is written has at
  least one entry, and a drug none of whose chains has a positive total quantity has no
  row.
\<close>

theorem compute_chain_recommendations_drops_zero_quantity:
  "\<exists>rows. compute_chain_recommendations e df_claims df_pharmacies = Inr rows
     \<and> (chain_quantity d ch (left_join_chain df_claims df_pharmacies) = 0 \<longrightarrow>
          g_avg_price (chain_agg_row e ((d, ch),
             chain_group d ch (left_join_chain df_claims df_pharmacies))) = None
        \<and> (\<forall>a \<in> set (chain_agg e (left_join_chain df_claims df_pharmacies)).
             (g_ndc a, g_chain a) \<noteq> (d, ch))
        \<and> (\<forall>r \<in> set rows. d_ndc r = d \<longrightarrow> (\<forall>en \<in> set (d_chain r). e_name en \<noteq> ch)))
     \<and> (\<forall>r \<in> set rows. d_chain r \<noteq> [])
     \<and> ((\<forall>c. \<not> 0 < chain_quantity d c (left_join_chain df_claims df_pharmacies)) \<longrightarrow>
          (\<forall>r \<in> set rows. d_ndc r \<noteq> d))"
proof -
  let ?dfw = "left_join_chain df_claims df_pharmacies"
  let ?agg = "chain_agg e ?dfw"
  let ?cands = "chain_candidates e df_claims df_pharmacies"
  let ?top = "\<lambda>d. map entry_of (take 2 (sort_key (\<lambda>a. (g_avg_price a, g_chain a)) (?cands d)))"
  let ?rows = "map (\<lambda>d. \<lparr> d_ndc = d, d_chain = ?top d \<rparr>) (sorted_list_of_set (g_ndc ` set ?agg))"
  have result: "compute_chain_recommendations e df_claims df_pharmacies = Inr ?rows"
    by (rule compute_chain_recommendations_rows)
  have entry: "0 < chain_quantity (d_ndc r) (e_name en) ?dfw"
    if "r \<in> set ?rows" and "en \<in> set (d_chain r)" for r en
  proof -
    from that obtain a where "a \<in> set (take 2 (sort_key (\<lambda>a. (g_avg_price a, g_chain a)) (?cands (d_ndc r))))"
      and en: "en = entry_of a"
      by auto
    then have "a \<in> set (?cands (d_ndc r))"
      using set_take_subset [of 2 "sort_key (\<lambda>a. (g_avg_price a, g_chain a)) (?cands (d_ndc r))"]
      by auto
    then have "a \<in> set ?agg" and "g_ndc a = d_ndc r"
      by (simp_all add: chain_candidates_def)
    with chain_agg_member [of a e ?dfw] show ?thesis
      by (simp add: en entry_of_def)
  qed
  have nonempty: "d_chain r \<noteq> []" if "r \<in> set ?rows" for r
  proof -
    from that obtain a where "a \<in> set ?agg" and "r = \<lparr> d_ndc = g_ndc a, d_chain = ?top (g_ndc a) \<rparr>"
      by auto
    moreover from this have "?cands (g_ndc a) \<noteq> []"
      by (auto simp: chain_candidates_def filter_empty_conv)
    ultimately have "length (d_chain r) = min 2 (length (?cands (g_ndc a)))"
      and "0 < length (?cands (g_ndc a))"
      by simp_all
    then have "0 < length (d_chain r)"
      by simp
    then show ?thesis
      by blast
  qed
  have row: "\<exists>c. 0 < chain_quantity (d_ndc r) c ?dfw" if "r \<in> set ?rows" for r
  proof -
    from nonempty [OF that] obtain en where "en \<in> set (d_chain r)"
      by (cases "d_chain r") auto
    from entry [OF that this] show ?thesis ..
  qed
  have "chain_quantity d ch ?dfw = 0 \<longrightarrow>
          g_avg_price (chain_agg_row e ((d, ch), chain_group d ch ?dfw)) = None
        \<and> (\<forall>a \<in> set ?agg. (g_ndc a, g_chain a) \<noteq> (d, ch))
        \<and> (\<forall>r \<in> set ?rows. d_ndc r = d \<longrightarrow> (\<forall>en \<in> set (d_chain r). e_name en \<noteq> ch))"
  proof (intro impI conjI ballI)
    assume "chain_quantity d ch ?dfw = 0"
    then show "g_avg_price (chain_agg_row e ((d, ch), chain_group d ch ?dfw)) = None"
      by (rule chain_agg_row_null)
  next
    fix a
    assume "chain_quantity d ch ?dfw = 0" and "a \<in> set ?agg"
    with chain_agg_member [of a e ?dfw] show "(g_ndc a, g_chain a) \<noteq> (d, ch)"
      by auto
  next
    fix r en
    assume "chain_quantity d ch ?dfw = 0" and "r \<in> set ?rows" and "d_ndc r = d"
      and "en \<in> set (d_chain r)"
    with entry [of r en] show "e_name en \<noteq> ch"
      by auto
  qed
  moreover have "\<forall>r \<in> set ?rows. d_chain r \<noteq> []"
    using nonempty by blast
  moreover have "(\<forall>c. \<not> 0 < chain_quantity d c ?dfw) \<longrightarrow> (\<forall>r \<in> set ?rows. d_ndc r \<noteq> d)"
    using row by blast
  ultimately show ?thesis
    using result by blast
qed

theorem compute_chain_recommendations_drops_zero_quantity_witness:
  "chain_group ''d1'' (Some ''E'') (left_join_chain (ex_null # ex_tie) ex_pharmacies5)
     = [(ex_null, Some ''E'')]
   \<and> chain_quantity ''d1'' (Some ''E'') (left_join_chain (ex_null # ex_tie) ex_pharmacies5) = 0
   \<and> g_avg_price (chain_agg_row engine_first ((''d1'', Some ''E''),
        chain_group ''d1'' (Some ''E'') (left_join_chain (ex_null # ex_tie) ex_pharmacies5))) = None
   \<and> chain_quantity ''d2'' (Some ''B'') (left_join_chain (ex_null # ex_tie) ex_pharmacies5) = 0
   \<and> compute_chain_recommendations engine_first (ex_null # ex_tie) ex_pharmacies5
       = Inr [\<lparr> d_ndc = ''d1'',
                d_chain = [\<lparr> e_name = Some ''D'', e_avg_price = 1 \<rparr>,
                           \<lparr> e_name = Some ''B'', e_avg_price = 3 \<rparr>] \<rparr>]"
proof -
  have group: "chain_group ''d1'' (Some ''E'') (left_join_chain (ex_null # ex_tie) ex_pharmacies5)
     = [(ex_null, Some ''E'')]"
    by code_simp
  have zero: "chain_quantity ''d1'' (Some ''E'') (left_join_chain (ex_null # ex_tie) ex_pharmacies5) = 0"
    by code_simp
  have zero2: "chain_quantity ''d2'' (Some ''B'') (left_join_chain (ex_null # ex_tie) ex_pharmacies5) = 0"
    by code_simp
  have result: "compute_chain_recommendations engine_first (ex_null # ex_tie) ex_pharmacies5
       = Inr [\<lparr> d_ndc = ''d1'',
                d_chain = [\<lparr> e_name = Some ''D'', e_avg_price = 1 \<rparr>,
                           \<lparr> e_name = Some ''B'', e_avg_price = 3 \<rparr>] \<rparr>]"
    by code_simp
  from compute_chain_recommendations_drops_zero_quantity
    [of engine_first "ex_null # ex_tie" ex_pharmacies5 "''d1''" "Some ''E''"] zero
  have "g_avg_price (chain_agg_row engine_first ((''d1'', Some ''E''),
        chain_group ''d1'' (Some ''E'') (left_join_chain (ex_null # ex_tie) ex_pharmacies5))) = None"
    by blast
  with group zero zero2 result show ?thesis
    by blast
qed

section \<open>Mode completeness\<close>

text \<open>
  C3. On a frame with a claim the quantity report has one row for each drug that has a
  claim, and the rows are strictly ascending in ndc. The list of a row is strictly
  ascending and holds exactly the quantities of the drug whose number of claims is the
  largest among the drug's quantities: a quantity is listed exactly when it occurs in a
  claim of the drug and no quantity has more claims. On a frame without a claim no drug
  has a claim, and the function raises \<^verbatim>\<open>ComputeError\<close> instead of writing a report.
\<close>

theorem compute_quantity_insights_modes:
  assumes "engine_ok e"
  shows "(df_claims = [] \<longrightarrow> compute_quantity_insights e df_claims = Inl ComputeError)
   \<and> (df_claims \<noteq> [] \<longrightarrow>
       (\<exists>rows. compute_quantity_insights e df_claims = Inr rows
        \<and> sorted (map i_ndc rows)
        \<and> distinct (map i_ndc rows)
        \<and> i_ndc ` set rows = c_ndc ` set df_claims
        \<and> (\<forall>r \<in> set rows.
              sorted (most_prescribed_quantity r) \<and> distinct (most_prescribed_quantity r)
            \<and> set (most_prescribed_quantity r) = mode_quantities (i_ndc r) df_claims
            \<and> (\<forall>q. q \<in> set (most_prescribed_quantity r) \<longleftrightarrow>
                     0 < quantity_count (i_ndc r) q df_claims
                   \<and> (\<forall>q'. quantity_count (i_ndc r) q' df_claims
                              \<le> quantity_count (i_ndc r) q df_claims)))))"
proof -
  let ?R = "\<lambda>d. \<lparr> i_ndc = d,
                 most_prescribed_quantity = sorted_list_of_set (mode_quantities d df_claims) \<rparr>"
  let ?out = "map ?R (sorted_list_of_set (c_ndc ` set df_claims))"
  have result: "compute_quantity_insights e df_claims
                = (if df_claims = [] then Inl ComputeError else Inr ?out)"
    by (rule compute_quantity_insights_rows [OF assms])
  have keys: "map i_ndc ?out = sorted_list_of_set (c_ndc ` set df_claims)"
    by (simp add: comp_def)
  have "sorted (map i_ndc ?out)" and "distinct (map i_ndc ?out)"
    unfolding keys by simp_all
  moreover have "i_ndc ` set ?out = c_ndc ` set df_claims"
    by (simp add: image_image)
  moreover have "\<forall>r \<in> set ?out.
         sorted (most_prescribed_quantity r) \<and> distinct (most_prescribed_quantity r)
       \<and> set (most_prescribed_quantity r) = mode_quantities (i_ndc r) df_claims
       \<and> (\<forall>q. q \<in> set (most_prescribed_quantity r) \<longleftrightarrow>
                0 < quantity_count (i_ndc r) q df_claims
              \<and> (\<forall>q'. quantity_count (i_ndc r) q' df_claims
                         \<le> quantity_count (i_ndc r) q df_claims))"
  proof
    fix r assume "r \<in> set ?out"
    then obtain d where r: "r = ?R d"
      by auto
    show "sorted (most_prescribed_quantity r) \<and> distinct (most_prescribed_quantity r)
       \<and> set (most_prescribed_quantity r) = mode_quantities (i_ndc r) df_claims
       \<and> (\<forall>q. q \<in> set (most_prescribed_quantity r) \<longleftrightarrow>
                0 < quantity_count (i_ndc r) q df_claims
              \<and> (\<forall>q'. quantity_count (i_ndc r) q' df_claims
                         \<le> quantity_count (i_ndc r) q df_claims))"
      unfolding r by (simp add: finite_mode_quantities mode_quantities_iff)
  qed
  ultimately have props: "sorted (map i_ndc ?out) \<and> distinct (map i_ndc ?out)
      \<and> i_ndc ` set ?out = c_ndc ` set df_claims
      \<and> (\<forall>r \<in> set ?out.
         sorted (most_prescribed_quantity r) \<and> distinct (most_prescribed_quantity r)
       \<and> set (most_prescribed_quantity r) = mode_quantities (i_ndc r) df_claims
       \<and> (\<forall>q. q \<in> set (most_prescribed_quantity r) \<longleftrightarrow>
                0 < quantity_count (i_ndc r) q df_claims
              \<and> (\<forall>q'. quantity_count (i_ndc r) q' df_claims
                         \<le> quantity_count (i_ndc r) q df_claims)))"
    by blast
  have "\<exists>rows. compute_quantity_insights e df_claims = Inr rows
        \<and> sorted (map i_ndc rows)
        \<and> distinct (map i_ndc rows)
        \<and> i_ndc ` set rows = c_ndc ` set df_claims
        \<and> (\<forall>r \<in> set rows.
              sorted (most_prescribed_quantity r) \<and> distinct (most_prescribed_quantity r)
            \<and> set (most_prescribed_quantity r) = mode_quantities (i_ndc r) df_claims
            \<and> (\<forall>q. q \<in> set (most_prescribed_quantity r) \<longleftrightarrow>
                     0 < quantity_count (i_ndc r) q df_claims
                   \<and> (\<forall>q'. quantity_count (i_ndc r) q' df_claims
                              \<le> quantity_count (i_ndc r) q df_claims)))"
    if "df_claims \<noteq> []"
  proof -
    from that have eq: "compute_quantity_insights e df_claims = Inr ?out"
      by (simp add: result)
    show ?thesis
      by (rule exI [of _ ?out]) (rule conjI [OF eq props])
  qed
  moreover have "df_claims = [] \<longrightarrow> compute_quantity_insights e df_claims = Inl ComputeError"
    using result by auto
  ultimately show ?thesis
    by blast
qed

theorem compute_quantity_insights_modes_witness:
  "engine_ok engine_rev
   \<and> ex_qty \<noteq> []
   \<and> compute_quantity_insights engine_rev ex_qty
       = Inr [\<lparr> i_ndc = ''d1'', most_prescribed_quantity = [2, 3] \<rparr>,
              \<lparr> i_ndc = ''d2'', most_prescribed_quantity = [0] \<rparr>,
              \<lparr> i_ndc = ''d3'', most_prescribed_quantity = [1 / 10] \<rparr>]
   \<and> map (\<lambda>q. quantity_count ''d1'' q ex_qty) [0, 1, 2, 3] = [1, 1, 2, 2]
   \<and> (\<exists>rows. compute_quantity_insights engine_rev ex_qty = Inr rows
         \<and> i_ndc ` set rows = c_ndc ` set ex_qty)
   \<and> compute_quantity_insights engine_rev [] = Inl ComputeError"
proof -
  note modes = compute_quantity_insights_modes [OF engine_ok_rev, of ex_qty]
  note none = compute_quantity_insights_modes [OF engine_ok_rev, of "[]"]
  have claims: "ex_qty \<noteq> []"
    by (simp add: ex_qty_def)
  have rows: "compute_quantity_insights engine_rev ex_qty
       = Inr [\<lparr> i_ndc = ''d1'', most_prescribed_quantity = [2, 3] \<rparr>,
              \<lparr> i_ndc = ''d2'', most_prescribed_quantity = [0] \<rparr>,
              \<lparr> i_ndc = ''d3'', most_prescribed_quantity = [1 / 10] \<rparr>]"
    by code_simp
  have counts: "map (\<lambda>q. quantity_count ''d1'' q ex_qty) [0, 1, 2, 3] = [1, 1, 2, 2]"
    by code_simp
  from modes [THEN conjunct2, THEN mp, OF claims]
  obtain out where "compute_quantity_insights engine_rev ex_qty = Inr out"
    and "i_ndc ` set out = c_ndc ` set ex_qty"
    by (elim exE conjE)
  then have keys: "\<exists>rows. compute_quantity_insights engine_rev ex_qty = Inr rows
         \<and> i_ndc ` set rows = c_ndc ` set ex_qty"
    by (intro exI conjI)
  from none [THEN conjunct1] have "compute_quantity_insights engine_rev [] = Inl ComputeError"
    by simp
  with keys engine_ok_rev claims rows counts show ?thesis
    by (intro conjI)
qed

section \<open>Determinism\<close>



section \<open>Reverted claims are aggregated\<close>

text \<open>
  C10. Clearing the marks of all claims changes nothing in the metrics report except
  the column \<open>reverted\<close>, and nothing in the chain report and the quantity report. In
  the metrics \<open>fills\<close>, \<open>total_price\<close> and \<open>avg_price\<close> are taken over all claims of the
  (npi, ndc) group, the sums of a chain candidate over all joined rows of the
  (ndc, chain) group, and the count of a quantity over all claims with that ndc and
  quantity; a reverted claim is a member of each of these groups of its own.
\<close>

theorem reverted_claims_are_aggregated:
  assumes "engine_ok e"
  shows "map without_reverted (compute_npi_ndc_metrics e df_claims)
           = map without_reverted (compute_npi_ndc_metrics e (map unmark df_claims))
   \<and> compute_chain_recommendations e df_claims df_pharmacies
           = compute_chain_recommendations e (map unmark df_claims) df_pharmacies
   \<and> compute_quantity_insights e df_claims = compute_quantity_insights e (map unmark df_claims)
   \<and> (\<forall>r \<in> set (compute_npi_ndc_metrics e df_claims).
         fills r = length (claims_of (m_npi r) (m_ndc r) df_claims)
       \<and> total_price r = round2 e (sum_list (map c_price (claims_of (m_npi r) (m_ndc r) df_claims)))
       \<and> avg_price r =
           (if 0 < sum_list (map c_quantity (claims_of (m_npi r) (m_ndc r) df_claims))
            then round2 e (sum_list (map c_price (claims_of (m_npi r) (m_ndc r) df_claims))
                           / sum_list (map c_quantity (claims_of (m_npi r) (m_ndc r) df_claims)))
            else 0))
   \<and> (\<forall>a \<in> set (chain_agg e (left_join_chain df_claims df_pharmacies)).
         g_total_price a = sum_list (map (\<lambda>row. c_price (fst row))
            (chain_group (g_ndc a) (g_chain a) (left_join_chain df_claims df_pharmacies)))
       \<and> g_total_quantity a
           = chain_quantity (g_ndc a) (g_chain a) (left_join_chain df_claims df_pharmacies))
   \<and> (\<forall>r \<in> set (quantity_counts e df_claims).
         q_count r = quantity_count (q_ndc r) (q_quantity r) df_claims)
   \<and> (\<forall>c \<in> set df_claims. is_reverted c \<longrightarrow>
         c \<in> set (claims_of (c_npi c) (c_ndc c) df_claims)
       \<and> (\<exists>r \<in> set (compute_npi_ndc_metrics e df_claims). m_npi r = c_npi c \<and> m_ndc r = c_ndc c)
       \<and> (\<forall>row \<in> set (left_join_chain df_claims df_pharmacies). fst row = c \<longrightarrow>
             row \<in> set (chain_group (c_ndc c) (snd row) (left_join_chain df_claims df_pharmacies)))
       \<and> c \<in> set (filter (\<lambda>c'. (c_ndc c', c_quantity c') = (c_ndc c, c_quantity c)) df_claims)
       \<and> (\<exists>r \<in> set (quantity_counts e df_claims).
             q_ndc r = c_ndc c \<and> q_quantity r = c_quantity c))"
proof -
  from assms have o1: "reorders (gb_qty_count e)"
    by (simp add: engine_ok_def)
  have "map without_reverted (compute_npi_ndc_metrics e df_claims)
           = map without_reverted (compute_npi_ndc_metrics e (map unmark df_claims))"
    by (rule compute_npi_ndc_metrics_unmark [OF assms, symmetric])
  moreover have "compute_chain_recommendations e df_claims df_pharmacies
           = compute_chain_recommendations e (map unmark df_claims) df_pharmacies"
    by (rule compute_chain_recommendations_unmark [symmetric])
  moreover have "compute_quantity_insights e df_claims
           = compute_quantity_insights e (map unmark df_claims)"
    by (rule compute_quantity_insights_unmark [symmetric])
  moreover have "\<forall>r \<in> set (compute_npi_ndc_metrics e df_claims).
         fills r = length (claims_of (m_npi r) (m_ndc r) df_claims)
       \<and> total_price r = round2 e (sum_list (map c_price (claims_of (m_npi r) (m_ndc r) df_claims)))
       \<and> avg_price r =
           (if 0 < sum_list (map c_quantity (claims_of (m_npi r) (m_ndc r) df_claims))
            then round2 e (sum_list (map c_price (claims_of (m_npi r) (m_ndc r) df_claims))
                           / sum_list (map c_quantity (claims_of (m_npi r) (m_ndc r) df_claims)))
            else 0)"
  proof
    fix r assume r: "r \<in> set (compute_npi_ndc_metrics e df_claims)"
    from compute_npi_ndc_metrics_row [OF assms r]
    obtain g where g: "g = claims_of (m_npi r) (m_ndc r) df_claims"
      and row: "r = metrics_select e (metrics_agg ((m_npi r, m_ndc r), g))"
      by simp
    have "fills r = length g" "total_price r = round2 e (sum_list (map c_price g))"
      "avg_price r = (if 0 < sum_list (map c_quantity g)
                      then round2 e (sum_list (map c_price g) / sum_list (map c_quantity g))
                      else 0)"
      by (subst row, simp add: metrics_select_def metrics_agg_def Let_def)+
    then show "fills r = length (claims_of (m_npi r) (m_ndc r) df_claims)
       \<and> total_price r = round2 e (sum_list (map c_price (claims_of (m_npi r) (m_ndc r) df_claims)))
       \<and> avg_price r =
           (if 0 < sum_list (map c_quantity (claims_of (m_npi r) (m_ndc r) df_claims))
            then round2 e (sum_list (map c_price (claims_of (m_npi r) (m_ndc r) df_claims))
                           / sum_list (map c_quantity (claims_of (m_npi r) (m_ndc r) df_claims)))
            else 0)"
      by (simp add: g)
  qed
  moreover have "\<forall>a \<in> set (chain_agg e (left_join_chain df_claims df_pharmacies)).
         g_total_price a = sum_list (map (\<lambda>row. c_price (fst row))
            (chain_group (g_ndc a) (g_chain a) (left_join_chain df_claims df_pharmacies)))
       \<and> g_total_quantity a
           = chain_quantity (g_ndc a) (g_chain a) (left_join_chain df_claims df_pharmacies)"
    using chain_agg_sums by blast
  moreover have "\<forall>r \<in> set (quantity_counts e df_claims).
         q_count r = quantity_count (q_ndc r) (q_quantity r) df_claims"
    using quantity_counts_count by blast
  moreover have "\<forall>c \<in> set df_claims. is_reverted c \<longrightarrow>
         c \<in> set (claims_of (c_npi c) (c_ndc c) df_claims)
       \<and> (\<exists>r \<in> set (compute_npi_ndc_metrics e df_claims). m_npi r = c_npi c \<and> m_ndc r = c_ndc c)
       \<and> (\<forall>row \<in> set (left_join_chain df_claims df_pharmacies). fst row = c \<longrightarrow>
             row \<in> set (chain_group (c_ndc c) (snd row) (left_join_chain df_claims df_pharmacies)))
       \<and> c \<in> set (filter (\<lambda>c'. (c_ndc c', c_quantity c') = (c_ndc c, c_quantity c)) df_claims)
       \<and> (\<exists>r \<in> set (quantity_counts e df_claims).
             q_ndc r = c_ndc c \<and> q_quantity r = c_quantity c)"
  proof (intro ballI impI conjI)
    fix c assume c: "c \<in> set df_claims"
    show "c \<in> set (claims_of (c_npi c) (c_ndc c) df_claims)"
      using c by (simp add: claims_of_def)
    have "(c_npi c, c_ndc c) \<in> set (map (\<lambda>r. (m_npi r, m_ndc r)) (compute_npi_ndc_metrics e df_claims))"
      using c by (simp add: compute_npi_ndc_metrics_keys [OF assms])
    then show "\<exists>r \<in> set (compute_npi_ndc_metrics e df_claims). m_npi r = c_npi c \<and> m_ndc r = c_ndc c"
      by auto
    show "c \<in> set (filter (\<lambda>c'. (c_ndc c', c_quantity c') = (c_ndc c, c_quantity c)) df_claims)"
      using c by simp
    have "c_ndc c \<in> q_ndc ` set (quantity_counts e df_claims)"
      using c by (simp add: counts_of_drug(3) [OF o1])
    have "\<lparr> q_ndc = c_ndc c, q_quantity = c_quantity c,
            q_count = quantity_count (c_ndc c) (c_quantity c) df_claims \<rparr>
          \<in> set (filter (\<lambda>r. q_ndc r = c_ndc c) (quantity_counts e df_claims))"
      using c by (simp only: counts_of_drug(1) [OF o1]) (auto simp: drug_quantities_def)
    then show "\<exists>r \<in> set (quantity_counts e df_claims).
             q_ndc r = c_ndc c \<and> q_quantity r = c_quantity c"
      by force
  next
    fix c row
    assume "row \<in> set (left_join_chain df_claims df_pharmacies)" and "fst row = c"
    then show "row \<in> set (chain_group (c_ndc c) (snd row) (left_join_chain df_claims df_pharmacies))"
      by (simp add: chain_group_def)
  qed
  ultimately show ?thesis
    by blast
qed

theorem reverted_claims_are_aggregated_witness:
  "engine_ok engine_first
   \<and> map is_reverted ex_tie = [False, True, False, False, True]
   \<and> compute_npi_ndc_metrics engine_first ex_tie
       = [\<lparr> m_npi = ''1'', m_ndc = ''d1'', fills = 1, reverted = 1, avg_price = 5, total_price = 10 \<rparr>,
          \<lparr> m_npi = ''2'', m_ndc = ''d1'', fills = 1, reverted = 0, avg_price = 3, total_price = 9 \<rparr>,
          \<lparr> m_npi = ''2'', m_ndc = ''d2'', fills = 1, reverted = 0, avg_price = 0, total_price = 7 \<rparr>,
          \<lparr> m_npi = ''3'', m_ndc = ''d1'', fills = 1, reverted = 0, avg_price = 3, total_price = 6 \<rparr>,
          \<lparr> m_npi = ''4'', m_ndc = ''d1'', fills = 1, reverted = 1, avg_price = 1, total_price = 1 \<rparr>]
   \<and> compute_chain_recommendations engine_first ex_tie ex_pharmacies4
       = Inr [\<lparr> d_ndc = ''d1'',
                d_chain = [\<lparr> e_name = Some ''D'', e_avg_price = 1 \<rparr>,
                           \<lparr> e_name = Some ''B'', e_avg_price = 3 \<rparr>] \<rparr>]
   \<and> compute_chain_recommendations engine_first (map unmark ex_tie) ex_pharmacies4
       = Inr [\<lparr> d_ndc = ''d1'',
                d_chain = [\<lparr> e_name = Some ''D'', e_avg_price = 1 \<rparr>,
                           \<lparr> e_name = Some ''B'', e_avg_price = 3 \<rparr>] \<rparr>]
   \<and> compute_quantity_insights engine_first (map unmark ex_tie)
       = Inr [\<lparr> i_ndc = ''d1'', most_prescribed_quantity = [2] \<rparr>,
              \<lparr> i_ndc = ''d2'', most_prescribed_quantity = [0] \<rparr>]"
proof -
  note aggregated = reverted_claims_are_aggregated [OF engine_ok_first, of ex_tie ex_pharmacies4]
  have marks: "map is_reverted ex_tie = [False, True, False, False, True]"
    by code_simp
  have metrics: "compute_npi_ndc_metrics engine_first ex_tie
       = [\<lparr> m_npi = ''1'', m_ndc = ''d1'', fills = 1, reverted = 1, avg_price = 5, total_price = 10 \<rparr>,
          \<lparr> m_npi = ''2'', m_ndc = ''d1'', fills = 1, reverted = 0, avg_price = 3, total_price = 9 \<rparr>,
          \<lparr> m_npi = ''2'', m_ndc = ''d2'', fills = 1, reverted = 0, avg_price = 0, total_price = 7 \<rparr>,
          \<lparr> m_npi = ''3'', m_ndc = ''d1'', fills = 1, reverted = 0, avg_price = 3, total_price = 6 \<rparr>,
          \<lparr> m_npi = ''4'', m_ndc = ''d1'', fills = 1, reverted = 1, avg_price = 1, total_price = 1 \<rparr>]"
    by code_simp
  have chains: "compute_chain_recommendations engine_first ex_tie ex_pharmacies4
       = Inr [\<lparr> d_ndc = ''d1'',
                d_chain = [\<lparr> e_name = Some ''D'', e_avg_price = 1 \<rparr>,
                           \<lparr> e_name = Some ''B'', e_avg_price = 3 \<rparr>] \<rparr>]"
    by code_simp
  have quantities: "compute_quantity_insights engine_first ex_tie
       = Inr [\<lparr> i_ndc = ''d1'', most_prescribed_quantity = [2] \<rparr>,
              \<lparr> i_ndc = ''d2'', most_prescribed_quantity = [0] \<rparr>]"
    by code_simp
  from aggregated chains
  have chains': "compute_chain_recommendations engine_first (map unmark ex_tie) ex_pharmacies4
       = Inr [\<lparr> d_ndc = ''d1'',
                d_chain = [\<lparr> e_name = Some ''D'', e_avg_price = 1 \<rparr>,
                           \<lparr> e_name = Some ''B'', e_avg_price = 3 \<rparr>] \<rparr>]"
    by simp
  from aggregated quantities
  have "compute_quantity_insights engine_first (map unmark ex_tie)
       = Inr [\<lparr> i_ndc = ''d1'', most_prescribed_quantity = [2] \<rparr>,
              \<lparr> i_ndc = ''d2'', most_prescribed_quantity = [0] \<rparr>]"
    by simp
  with marks metrics chains chains' engine_ok_first show ?thesis
    by blast
qed

section \<open>Records of the same key in several files\<close>

text \<open>
  C4. Duplicate records of one key are expected not to count twice in any aggregate. The
  loader removes them within one file only: \<^verbatim>\<open>unique\<close> is applied to the frame of every
  file, \<^verbatim>\<open>pl.concat\<close> then puts the frames one after the other, and nothing downstream
  removes a row. With one pharmacy, one claim of it and one revert of that claim, each in
  a file of its own, every reader and every engine report \<open>fills = 1\<close> and \<open>reverted = 1\<close>
  for the group. With the same claim in a second claims file the report has \<open>fills = 2\<close>
  and \<open>reverted = 2\<close>; with the same pharmacy in a second pharmacy file the join doubles
  the claim and the report is \<open>fills = 2\<close> and \<open>reverted = 2\<close> as well. Only the same
  revert in a second reverts file changes nothing.
\<close>

theorem duplicate_files_double_count:
  assumes "reader_ok rd" and "engine_ok e"
  shows "(\<exists>ms cs qs.
            main rd e [Some [Some [ex_p1]]] [Some [Some [ex_c1]]] [Some [Some [ex_r1]]]
              = Inr (ms, cs, qs)
            \<and> map (\<lambda>r. (fills r, reverted r)) ms = [(1, 1)])
       \<and> (\<exists>ms cs qs.
            main rd e [Some [Some [ex_p1]]] [Some [Some [ex_c1], Some [ex_c1]]] [Some [Some [ex_r1]]]
              = Inr (ms, cs, qs)
            \<and> map (\<lambda>r. (fills r, reverted r)) ms = [(2, 2)])
       \<and> (\<exists>ms cs qs.
            main rd e [Some [Some [ex_p1], Some [ex_p1]]] [Some [Some [ex_c1]]] [Some [Some [ex_r1]]]
              = Inr (ms, cs, qs)
            \<and> map (\<lambda>r. (fills r, reverted r)) ms = [(2, 2)])
       \<and> (\<exists>ms cs qs.
            main rd e [Some [Some [ex_p1]]] [Some [Some [ex_c1]]] [Some [Some [ex_r1], Some [ex_r1]]]
              = Inr (ms, cs, qs)
            \<and> map (\<lambda>r. (fills r, reverted r)) ms = [(1, 1)])"
proof -
  from assms(1) have uc: "uniques c_id (unique_claim_id rd)"
    and ur: "uniques r_id (unique_revert_id rd)"
    by (simp_all add: reader_ok_def)
  note loads = load_pharmacies_one [OF assms(1)] load_pharmacies_two [OF assms(1)]
    load_events_one [OF uc] load_events_two [OF uc] load_events_one [OF ur]
    load_events_two [OF ur]
  let ?c = "\<lparr> c_id = ''c1'', c_npi = ''1'', c_ndc = ''d1'', c_price = 10, c_quantity = 2,
              c_timestamp = ''t1'', is_reverted = True \<rparr>"
  from assms(2) have jo: "reorders (join_order e)"
    by (simp add: engine_ok_def)
  have j1: "filter_to_pharmacy_dataset e [ex_c1] [ex_p1] = [ex_c1]"
    and j2: "filter_to_pharmacy_dataset e [ex_c1, ex_c1] [ex_p1] = [ex_c1, ex_c1]"
    and j3: "filter_to_pharmacy_dataset e [ex_c1] [ex_p1, ex_p1] = [ex_c1, ex_c1]"
    by (simp_all add: filter_to_pharmacy_dataset_def ex_c1_def ex_p1_def reorders_same [OF jo])
  have k1: "mark_reverted_claims [ex_c1] [ex_r1] = [?c]"
    and k2: "mark_reverted_claims [ex_c1, ex_c1] [ex_r1] = [?c, ?c]"
    and k3: "mark_reverted_claims [ex_c1] [ex_r1, ex_r1] = [?c]"
    by code_simp+
  have once: "mark_reverted_claims (filter_to_pharmacy_dataset e [ex_c1] [ex_p1]) [ex_r1] = [?c]"
    by (simp only: j1 k1)
  have claim_twice:
    "mark_reverted_claims (filter_to_pharmacy_dataset e [ex_c1, ex_c1] [ex_p1]) [ex_r1] = [?c, ?c]"
    by (simp only: j2 k2)
  have pharmacy_twice:
    "mark_reverted_claims (filter_to_pharmacy_dataset e [ex_c1] [ex_p1, ex_p1]) [ex_r1] = [?c, ?c]"
    by (simp only: j3 k2)
  have revert_twice:
    "mark_reverted_claims (filter_to_pharmacy_dataset e [ex_c1] [ex_p1]) [ex_r1, ex_r1] = [?c]"
    by (simp only: j1 k3)
  have m1: "map (\<lambda>r. (fills r, reverted r)) (compute_npi_ndc_metrics e [?c]) = [(1, 1)]"
    using metrics_one_group [OF assms(2), of "[?c]" "(''1'', ''d1'')"] by simp
  have m2: "map (\<lambda>r. (fills r, reverted r)) (compute_npi_ndc_metrics e [?c, ?c]) = [(2, 2)]"
    using metrics_one_group [OF assms(2), of "[?c, ?c]" "(''1'', ''d1'')"] by simp
  have a: "\<exists>ms cs qs.
            main rd e [Some [Some [ex_p1]]] [Some [Some [ex_c1]]] [Some [Some [ex_r1]]]
              = Inr (ms, cs, qs)
            \<and> map (\<lambda>r. (fills r, reverted r)) ms = [(1, 1)]"
    using run_pharmacy_analytics_metrics [OF assms(2) once] m1
    by (auto simp: main_def loads)
  have b: "\<exists>ms cs qs.
            main rd e [Some [Some [ex_p1]]] [Some [Some [ex_c1], Some [ex_c1]]] [Some [Some [ex_r1]]]
              = Inr (ms, cs, qs)
            \<and> map (\<lambda>r. (fills r, reverted r)) ms = [(2, 2)]"
    using run_pharmacy_analytics_metrics [OF assms(2) claim_twice] m2
    by (auto simp: main_def loads)
  have c: "\<exists>ms cs qs.
            main rd e [Some [Some [ex_p1], Some [ex_p1]]] [Some [Some [ex_c1]]] [Some [Some [ex_r1]]]
              = Inr (ms, cs, qs)
            \<and> map (\<lambda>r. (fills r, reverted r)) ms = [(2, 2)]"
    using run_pharmacy_analytics_metrics [OF assms(2) pharmacy_twice] m2
    by (auto simp: main_def loads)
  have d: "\<exists>ms cs qs.
            main rd e [Some [Some [ex_p1]]] [Some [Some [ex_c1]]] [Some [Some [ex_r1], Some [ex_r1]]]
              = Inr (ms, cs, qs)
            \<and> map (\<lambda>r. (fills r, reverted r)) ms = [(1, 1)]"
    using run_pharmacy_analytics_metrics [OF assms(2) revert_twice] m1
    by (auto simp: main_def loads)
  from a b c d show ?thesis by blast
qed

theorem duplicate_files_double_count_witness:
  "reader_ok reader_first \<and> engine_ok engine_first
   \<and> (\<exists>ms cs qs. main reader_first engine_first [Some [Some [ex_p1]]] [Some [Some [ex_c1]]] [Some [Some [ex_r1]]] = Inr (ms, cs, qs)
          \<and> map (\<lambda>r. (fills r, reverted r)) ms = [(1, 1)])
   \<and> (\<exists>ms cs qs. main reader_first engine_first [Some [Some [ex_p1]]] [Some [Some [ex_c1], Some [ex_c1]]] [Some [Some [ex_r1]]] = Inr (ms, cs, qs)
          \<and> map (\<lambda>r. (fills r, reverted r)) ms = [(2, 2)])
   \<and> (\<exists>ms cs qs. main reader_first engine_first [Some [Some [ex_p1], Some [ex_p1]]] [Some [Some [ex_c1]]] [Some [Some [ex_r1]]] = Inr (ms, cs, qs)
          \<and> map (\<lambda>r. (fills r, reverted r)) ms = [(2, 2)])
   \<and> (\<exists>ms cs qs. main reader_first engine_first [Some [Some [ex_p1]]] [Some [Some [ex_c1]]] [Some [Some [ex_r1], Some [ex_r1]]] = Inr (ms, cs, qs)
          \<and> map (\<lambda>r. (fills r, reverted r)) ms = [(1, 1)])
   \<and> main reader_first engine_first [Some [Some [ex_p1]]] [Some [Some [ex_c1]]] [Some [Some [ex_r1]]]
       = Inr ([\<lparr> m_npi = ''1'', m_ndc = ''d1'', fills = 1, reverted = 1, avg_price = 5, total_price = 10 \<rparr>],
              [\<lparr> d_ndc = ''d1'', d_chain = [\<lparr> e_name = Some ''A'', e_avg_price = 5 \<rparr>] \<rparr>],
              [\<lparr> i_ndc = ''d1'', most_prescribed_quantity = [2] \<rparr>])
   \<and> main reader_first engine_first [Some [Some [ex_p1]]] [Some [Some [ex_c1], Some [ex_c1]]] [Some [Some [ex_r1]]]
       = Inr ([\<lparr> m_npi = ''1'', m_ndc = ''d1'', fills = 2, reverted = 2, avg_price = 5, total_price = 20 \<rparr>],
              [\<lparr> d_ndc = ''d1'', d_chain = [\<lparr> e_name = Some ''A'', e_avg_price = 5 \<rparr>] \<rparr>],
              [\<lparr> i_ndc = ''d1'', most_prescribed_quantity = [2] \<rparr>])
   \<and> main reader_first engine_first [Some [Some [ex_p1], Some [ex_p1]]] [Some [Some [ex_c1]]] [Some [Some [ex_r1]]]
       = Inr ([\<lparr> m_npi = ''1'', m_ndc = ''d1'', fills = 2, reverted = 2, avg_price = 5, total_price = 20 \<rparr>],
              [\<lparr> d_ndc = ''d1'', d_chain = [\<lparr> e_name = Some ''A'', e_avg_price = 5 \<rparr>] \<rparr>],
              [\<lparr> i_ndc = ''d1'', most_prescribed_quantity = [2] \<rparr>])
   \<and> main reader_first engine_first [Some [Some [ex_p1]]] [Some [Some [ex_c1]]] [Some [Some [ex_r1], Some [ex_r1]]]
       = Inr ([\<lparr> m_npi = ''1'', m_ndc = ''d1'', fills = 1, reverted = 1, avg_price = 5, total_price = 10 \<rparr>],
              [\<lparr> d_ndc = ''d1'', d_chain = [\<lparr> e_name = Some ''A'', e_avg_price = 5 \<rparr>] \<rparr>],
              [\<lparr> i_ndc = ''d1'', most_prescribed_quantity = [2] \<rparr>])"
proof -
  note counted = duplicate_files_double_count [OF reader_ok_first engine_ok_first]
  have once: "main reader_first engine_first [Some [Some [ex_p1]]] [Some [Some [ex_c1]]] [Some [Some [ex_r1]]]
       = Inr ([\<lparr> m_npi = ''1'', m_ndc = ''d1'', fills = 1, reverted = 1, avg_price = 5, total_price = 10 \<rparr>],
              [\<lparr> d_ndc = ''d1'', d_chain = [\<lparr> e_name = Some ''A'', e_avg_price = 5 \<rparr>] \<rparr>],
              [\<lparr> i_ndc = ''d1'', most_prescribed_quantity = [2] \<rparr>])"
    by code_simp
  have claim_twice: "main reader_first engine_first [Some [Some [ex_p1]]] [Some [Some [ex_c1], Some [ex_c1]]] [Some [Some [ex_r1]]]
       = Inr ([\<lparr> m_npi = ''1'', m_ndc = ''d1'', fills = 2, reverted = 2, avg_price = 5, total_price = 20 \<rparr>],
              [\<lparr> d_ndc = ''d1'', d_chain = [\<lparr> e_name = Some ''A'', e_avg_price = 5 \<rparr>] \<rparr>],
              [\<lparr> i_ndc = ''d1'', most_prescribed_quantity = [2] \<rparr>])"
    by code_simp
  have pharmacy_twice: "main reader_first engine_first [Some [Some [ex_p1], Some [ex_p1]]] [Some [Some [ex_c1]]] [Some [Some [ex_r1]]]
       = Inr ([\<lparr> m_npi = ''1'', m_ndc = ''d1'', fills = 2, reverted = 2, avg_price = 5, total_price = 20 \<rparr>],
              [\<lparr> d_ndc = ''d1'', d_chain = [\<lparr> e_name = Some ''A'', e_avg_price = 5 \<rparr>] \<rparr>],
              [\<lparr> i_ndc = ''d1'', most_prescribed_quantity = [2] \<rparr>])"
    by code_simp
  have revert_twice: "main reader_first engine_first [Some [Some [ex_p1]]] [Some [Some [ex_c1]]] [Some [Some [ex_r1], Some [ex_r1]]]
       = Inr ([\<lparr> m_npi = ''1'', m_ndc = ''d1'', fills = 1, reverted = 1, avg_price = 5, total_price = 10 \<rparr>],
              [\<lparr> d_ndc = ''d1'', d_chain = [\<lparr> e_name = Some ''A'', e_avg_price = 5 \<rparr>] \<rparr>],
              [\<lparr> i_ndc = ''d1'', most_prescribed_quantity = [2] \<rparr>])"
    by code_simp
  from counted once claim_twice pharmacy_twice revert_twice reader_ok_first engine_ok_first
  show ?thesis
    by blast
qed

end
